theory Spec2Isabelle
  imports
    Complex_Main
    "HOL-Library.Char_ord"
    "HOL-Library.List_Lexorder"
    "HOL-Library.Product_Lexorder"
    "HOL-Library.Multiset"
    "HOL-Library.Sublist"
begin

section \<open>Values\<close>

text \<open>
  A Python float. Only comparisons of floats occur in the program, and IEEE comparison
  is exact, so a finite float is represented by the real number it denotes; the three
  special values are kept apart. An integer cell compares like the float of its value.
\<close>

datatype pyfloat = NaN | NInf | Fin real | PInf

fun py_lt :: "pyfloat \<Rightarrow> pyfloat \<Rightarrow> bool" where
  "py_lt NaN _ = False"
| "py_lt _ NaN = False"
| "py_lt (Fin a) (Fin b) = (a < b)"
| "py_lt NInf NInf = False"
| "py_lt NInf _ = True"
| "py_lt _ NInf = False"
| "py_lt PInf _ = False"
| "py_lt _ PInf = True"

fun py_ge :: "pyfloat \<Rightarrow> pyfloat \<Rightarrow> bool" where
  "py_ge NaN _ = False"
| "py_ge _ NaN = False"
| "py_ge (Fin a) (Fin b) = (a \<ge> b)"
| "py_ge _ NInf = True"
| "py_ge PInf _ = True"
| "py_ge NInf _ = False"
| "py_ge _ PInf = False"

text \<open>A cell of a table read by pandas: text, an integer or a float (a missing value is
  the float NaN).\<close>

datatype cell = Str string | Integer int | Float pyfloat

fun isna :: "cell \<Rightarrow> bool" where
  "isna (Float NaN) = True"
| "isna _ = False"

fun is_text :: "cell \<Rightarrow> bool" where
  "is_text (Str s) = True"
| "is_text _ = False"

fun the_str :: "cell \<Rightarrow> string" where
  "the_str (Str s) = s"
| "the_str _ = []"

text \<open>The exceptions of the program and of the library calls it makes.\<close>

datatype error =
    FileNotFoundError string
  | TypeError
  | ValueError string
  | KeyError string
  | AttributeError string
  | ParserError
  | IndexError
  | SystemExit int
  | ExternalError string

section \<open>Binary validator\<close>

text \<open>
  \<open>check_binaries_available\<close>, lines 21-30. \<open>exists\<close> is \<open>Path(p).exists()\<close> on the
  file system of the run. The driver passes the values of the parsed options, which are
  \<open>None\<close> when \<open>shutil.which\<close> found nothing: \<open>Path(None)\<close> raises \<open>TypeError\<close>.
\<close>

definition check_binaries_available ::
  "(string \<Rightarrow> bool) \<Rightarrow> string option \<Rightarrow> string option \<Rightarrow> string option \<Rightarrow> error + unit" where
  "check_binaries_available exists parallel_binary_path tblastn_binary_path foldseek_binary_path =
     (case parallel_binary_path of None \<Rightarrow> Inl TypeError | Some p \<Rightarrow>
      if \<not> exists p
      then Inl (FileNotFoundError ''foldseek not found. Please set PATH to foldseek.'')
      else (case tblastn_binary_path of None \<Rightarrow> Inl TypeError | Some t \<Rightarrow>
      if \<not> exists t
      then Inl (FileNotFoundError ''tblastn not found. Please set PATH to tblastn.'')
      else (case foldseek_binary_path of None \<Rightarrow> Inl TypeError | Some f \<Rightarrow>
      if \<not> exists f
      then Inl (FileNotFoundError ''parallel not found. Please set PATH to parallel.'')
      else Inr ())))"

section \<open>Tables\<close>

text \<open>
  A row of the structural-hit table: the 21 columns that \<open>filtering_m8file\<close> names, in
  the order of the file. The program compares \<open>evalue\<close> with a float and hands
  \<open>theader\<close> and \<open>tseq\<close> to constructors that take text, so these three carry the
  types of the data model; the other columns are only formatted or not used at all and
  stay cells.
\<close>

record m8row =
  query :: cell
  theader :: string
  pident :: cell
  alnlen :: cell
  mismatch :: cell
  gapopen :: cell
  qstart :: cell
  qend :: cell
  tstart :: cell
  tend :: cell
  prob :: cell
  evalue :: pyfloat
  bits :: cell
  qlen :: cell
  tlen :: cell
  qaln :: cell
  taln :: cell
  tca :: cell
  tseq :: string
  taxid :: cell
  taxname :: cell

text \<open>
  A DataFrame is the list of its rows in order, each with its index label. A table read
  from a file is labelled \<open>0, 1, 2, ...\<close>; selecting and sorting rows keeps the labels.
\<close>

type_synonym 'r frame = "(nat \<times> 'r) list"

definition range_index :: "'r list \<Rightarrow> 'r frame" where
  "range_index rs = enumerate 0 rs"

text \<open>\<open>df[sel]\<close> for a boolean column \<open>sel\<close> on the index of \<open>df\<close>.\<close>

definition getitem_mask :: "'r frame \<Rightarrow> bool list \<Rightarrow> 'r frame" where
  "getitem_mask df sel = map fst (filter snd (zip df sel))"

section \<open>Structural-hit table filter\<close>

text \<open>Line 68: \<open>df[df["evalue"] < eval_threshold]\<close>.\<close>

definition filter_evalue :: "m8row frame \<Rightarrow> pyfloat \<Rightarrow> m8row frame" where
  "filter_evalue df eval_threshold =
     getitem_mask df (map (\<lambda>(i, row). py_lt (evalue row) eval_threshold) df)"

text \<open>
  \<open>filtering_m8file\<close>, lines 33-69. \<open>read_csv\<close> is \<open>pd.read_csv(file, sep="\t", names=...)\<close>
  on the file system of the run: the rows of the file, or the exception it raises.
\<close>

definition filtering_m8file ::
  "(string \<Rightarrow> error + m8row list) \<Rightarrow> string \<Rightarrow> pyfloat \<Rightarrow> error + m8row frame" where
  "filtering_m8file read_csv file eval_threshold =
     (case read_csv file of
        Inl e \<Rightarrow> Inl e
      | Inr rs \<Rightarrow> Inr (filter_evalue (range_index rs) eval_threshold))"

definition default_eval_threshold :: pyfloat where
  "default_eval_threshold = Fin (1 / 10 ^ 10)"

section \<open>Deduplicator\<close>

record seqrecord =
  rec_id :: string
  rec_name :: string
  rec_seq :: string
  description :: string

text \<open>The \<open>SeqRecord\<close> built at lines 85-90; \<open>fmt\<close> is Python's formatting of a cell
  inside the f-string.\<close>

definition seqrecord_of :: "(cell \<Rightarrow> string) \<Rightarrow> m8row \<Rightarrow> seqrecord" where
  "seqrecord_of fmt row =
     \<lparr> rec_id = theader row,
       rec_name = theader row,
       rec_seq = tseq row,
       description =
         ''pident='' @ fmt (pident row) @ '', evalue='' @ fmt (Float (evalue row))
         @ '' taxid='' @ fmt (taxid row) @ '', taxname='' @ fmt (taxname row) @ '', '' \<rparr>"

text \<open>The loop of lines 82-92 over the rows still to visit, with the set \<open>seen\<close> and the
  list \<open>nodups\<close> as they stand.\<close>

fun remove_duplicates_loop ::
  "(cell \<Rightarrow> string) \<Rightarrow> m8row list \<Rightarrow> string set \<Rightarrow> seqrecord list \<Rightarrow> seqrecord list" where
  "remove_duplicates_loop fmt [] seen nodups = nodups"
| "remove_duplicates_loop fmt (row # rest) seen nodups =
     (if tseq row \<notin> seen
      then remove_duplicates_loop fmt rest (insert (tseq row) seen)
             (nodups @ [seqrecord_of fmt row])
      else remove_duplicates_loop fmt rest seen nodups)"

definition remove_duplicates :: "(cell \<Rightarrow> string) \<Rightarrow> m8row frame \<Rightarrow> seqrecord list" where
  "remove_duplicates fmt hits = remove_duplicates_loop fmt (map snd hits) {} []"

text \<open>In the words of the specification: the rows that are the first, in table order,
  to carry their target sequence.\<close>

definition first_rows :: "m8row list \<Rightarrow> m8row list" where
  "first_rows rs =
     map (\<lambda>i. rs ! i)
       (filter (\<lambda>i. tseq (rs ! i) \<notin> set (map tseq (take i rs))) [0..<length rs])"

section \<open>Sorting routine of the array library\<close>

text \<open>
  \<open>sort_values\<close> is called with \<open>kind\<close> left at its default, \<open>quicksort\<close>. For an array of
  Python objects, which is what a column of text is, the array library then sorts with
  its generic \<open>npy_aquicksort\<close>: an introsort over the array \<open>tosort\<close> of positions, ordered
  by a comparison \<open>lt\<close> of the keys they point to. Ranges of more than sixteen positions
  are partitioned around the median of three, the smaller part is sorted first and the
  larger is put on a stack; shorter ranges are sorted by insertion; a range taken from
  the stack after more than \<open>2 * floor (log2 num)\<close> partitions is sorted by
  \<open>npy_aheapsort\<close>. The routine is not stable.
\<close>

text \<open>\<open>INTP_SWAP(a, b)\<close> on two places of the array.\<close>

definition intp_swap :: "'a list \<Rightarrow> nat \<Rightarrow> nat \<Rightarrow> 'a list" where
  "intp_swap xs i j = xs[i := xs ! j, j := xs ! i]"

text \<open>\<open>do { ++pi; } while (lt(*pi, vp) && pi < pj);\<close>\<close>

function scan_up :: "('a \<Rightarrow> 'a \<Rightarrow> bool) \<Rightarrow> 'a list \<Rightarrow> 'a \<Rightarrow> nat \<Rightarrow> nat \<Rightarrow> nat" where
  "scan_up lt xs vp i j =
     (let i' = i + 1 in
      if lt (xs ! i') vp \<and> i' < j then scan_up lt xs vp i' j else i')"
  by pat_completeness auto
termination
  by (relation "measure (\<lambda>(lt, xs, vp, i, j). j - i)") auto

declare scan_up.simps [simp del]

text \<open>\<open>do { --pj; } while (lt(vp, *pj) && pi < pj);\<close>\<close>

function scan_down :: "('a \<Rightarrow> 'a \<Rightarrow> bool) \<Rightarrow> 'a list \<Rightarrow> 'a \<Rightarrow> nat \<Rightarrow> nat \<Rightarrow> nat" where
  "scan_down lt xs vp i j =
     (let j' = j - 1 in
      if lt vp (xs ! j') \<and> i < j' then scan_down lt xs vp i j' else j')"
  by pat_completeness auto
termination
  by (relation "measure (\<lambda>(lt, xs, vp, i, j). j - i)") auto

declare scan_down.simps [simp del]

text \<open>The loop \<open>for (;;)\<close> of the partition: both scans, then a swap unless they have met.\<close>

function partition_loop ::
  "('a \<Rightarrow> 'a \<Rightarrow> bool) \<Rightarrow> 'a list \<Rightarrow> 'a \<Rightarrow> nat \<Rightarrow> nat \<Rightarrow> 'a list \<times> nat" where
  "partition_loop lt xs vp i j =
     (let i' = scan_up lt xs vp i j;
          j' = scan_down lt xs vp i' j in
      if i' \<ge> j' then (xs, i')
      else partition_loop lt (intp_swap xs i' j') vp i' j')"
  by pat_completeness auto
termination
proof -
  have up: "i < scan_up lt xs vp i j"
    for lt :: "'a \<Rightarrow> 'a \<Rightarrow> bool" and xs vp i j
  proof (induction lt xs vp i j rule: scan_up.induct)
    case (1 lt xs vp i j)
    show ?case
    proof (cases "lt (xs ! (i + 1)) vp \<and> i + 1 < j")
      case True
      with 1 have "i + 1 < scan_up lt xs vp (i + 1) j" by simp
      with True show ?thesis by (subst scan_up.simps) (simp add: Let_def)
    next
      case False
      then show ?thesis by (subst scan_up.simps) (auto simp: Let_def)
    qed
  qed
  have down: "scan_down lt xs vp i j \<le> j"
    for lt :: "'a \<Rightarrow> 'a \<Rightarrow> bool" and xs vp i j
  proof (induction lt xs vp i j rule: scan_down.induct)
    case (1 lt xs vp i j)
    show ?case
    proof (cases "lt vp (xs ! (j - 1)) \<and> i < j - 1")
      case True
      with 1 have "scan_down lt xs vp i (j - 1) \<le> j - 1" by simp
      with True show ?thesis by (subst scan_down.simps) (simp add: Let_def)
    next
      case False
      then show ?thesis by (subst scan_down.simps) (auto simp: Let_def)
    qed
  qed
  show ?thesis
  proof (relation "measure (\<lambda>(lt, xs, vp, i, j). j - i)", goal_cases)
    case 1
    then show ?case by simp
  next
    case (2 lt xs vp i j x xa)
    then show ?case
      using up [of i lt xs vp j] down [of lt xs vp x j] by simp
  qed
qed

declare partition_loop.simps [simp del]

text \<open>The three conditional swaps that put the median of \<open>*pl\<close>, \<open>*pm\<close>, \<open>*pr\<close> at \<open>pm\<close>.\<close>

definition med3 :: "('a \<Rightarrow> 'a \<Rightarrow> bool) \<Rightarrow> 'a list \<Rightarrow> nat \<Rightarrow> nat \<Rightarrow> nat \<Rightarrow> 'a list" where
  "med3 lt xs pl pm pr =
     (let xs1 = (if lt (xs ! pm) (xs ! pl) then intp_swap xs pm pl else xs);
          xs2 = (if lt (xs1 ! pr) (xs1 ! pm) then intp_swap xs1 pr pm else xs1)
      in if lt (xs2 ! pm) (xs2 ! pl) then intp_swap xs2 pm pl else xs2)"

text \<open>One partition of the range from \<open>pl\<close> to \<open>pr\<close>: the array after it and the place
  \<open>pi\<close> of the pivot.\<close>

definition quicksort_partition ::
  "('a \<Rightarrow> 'a \<Rightarrow> bool) \<Rightarrow> 'a list \<Rightarrow> nat \<Rightarrow> nat \<Rightarrow> 'a list \<times> nat" where
  "quicksort_partition lt xs pl pr =
     (let pm = pl + (pr - pl) div 2;
          xs3 = med3 lt xs pl pm pr;
          vp = xs3 ! pm;
          xs4 = intp_swap xs3 pm (pr - 1)
      in case partition_loop lt xs4 vp pl (pr - 1) of
           (xs5, i) \<Rightarrow> (intp_swap xs5 i (pr - 1), i))"

text \<open>Insertion sort of a short range: \<open>while (pj > pl && lt(vi, *pk)) { *pj-- = *pk--; }
  *pj = vi;\<close> for every \<open>pi\<close> from \<open>pl + 1\<close> to \<open>pr\<close>.\<close>

function shift_down :: "('a \<Rightarrow> 'a \<Rightarrow> bool) \<Rightarrow> 'a list \<Rightarrow> nat \<Rightarrow> 'a \<Rightarrow> nat \<Rightarrow> 'a list" where
  "shift_down lt xs pl vi j =
     (if j > pl \<and> lt vi (xs ! (j - 1))
      then shift_down lt (xs[j := xs ! (j - 1)]) pl vi (j - 1)
      else xs[j := vi])"
  by pat_completeness auto
termination
  by (relation "measure (\<lambda>(lt, xs, pl, vi, j). j)") auto

declare shift_down.simps [simp del]

function insertion_loop :: "('a \<Rightarrow> 'a \<Rightarrow> bool) \<Rightarrow> 'a list \<Rightarrow> nat \<Rightarrow> nat \<Rightarrow> nat \<Rightarrow> 'a list" where
  "insertion_loop lt xs pl pr i =
     (if i \<le> pr then insertion_loop lt (shift_down lt xs pl (xs ! i) i) pl pr (i + 1)
      else xs)"
  by pat_completeness auto
termination
  by (relation "measure (\<lambda>(lt, xs, pl, pr, i). Suc pr - i)") auto

declare insertion_loop.simps [simp del]

definition insertion_sort :: "('a \<Rightarrow> 'a \<Rightarrow> bool) \<Rightarrow> 'a list \<Rightarrow> nat \<Rightarrow> nat \<Rightarrow> 'a list" where
  "insertion_sort lt xs pl pr = insertion_loop lt xs pl pr (pl + 1)"

text \<open>
  \<open>npy_aheapsort\<close> on the \<open>n\<close> positions from \<open>pl\<close>, which the library counts from one:
  \<open>a[k]\<close> is the place \<open>pl + k - 1\<close>. \<open>sift_down\<close> is the inner loop that lets \<open>tmp\<close> sink
  from \<open>a[i]\<close>; \<open>i\<close> is at least one wherever the library enters it.
\<close>

function sift_down :: "('a \<Rightarrow> 'a \<Rightarrow> bool) \<Rightarrow> 'a list \<Rightarrow> nat \<Rightarrow> nat \<Rightarrow> 'a \<Rightarrow> nat \<Rightarrow> 'a list" where
  "sift_down lt xs pl n tmp i =
     (let j = 2 * i in
      if 0 < i \<and> j \<le> n then
        (let j' = (if j < n \<and> lt (xs ! (pl + j - 1)) (xs ! (pl + j)) then j + 1 else j) in
         if lt tmp (xs ! (pl + j' - 1))
         then sift_down lt (xs[pl + i - 1 := xs ! (pl + j' - 1)]) pl n tmp j'
         else xs[pl + i - 1 := tmp])
      else xs[pl + i - 1 := tmp])"
  by pat_completeness auto
termination
  by (relation "measure (\<lambda>(lt, xs, pl, n, tmp, i). n - i)") (auto split: if_splits)

declare sift_down.simps [simp del]

text \<open>\<open>for (l = n >> 1; l > 0; --l)\<close>: the heap is built from the middle down.\<close>

fun heapify :: "('a \<Rightarrow> 'a \<Rightarrow> bool) \<Rightarrow> 'a list \<Rightarrow> nat \<Rightarrow> nat \<Rightarrow> nat \<Rightarrow> 'a list" where
  "heapify lt xs pl n 0 = xs"
| "heapify lt xs pl n (Suc l) =
     heapify lt (sift_down lt xs pl n (xs ! (pl + l)) (Suc l)) pl n l"

text \<open>\<open>for (; n > 1;)\<close>: the largest goes to the end and the rest is made a heap again.\<close>

function sortdown :: "('a \<Rightarrow> 'a \<Rightarrow> bool) \<Rightarrow> 'a list \<Rightarrow> nat \<Rightarrow> nat \<Rightarrow> 'a list" where
  "sortdown lt xs pl n =
     (if n > 1 then
        (let tmp = xs ! (pl + n - 1);
             xs1 = xs[pl + n - 1 := xs ! pl]
         in sortdown lt (sift_down lt xs1 pl (n - 1) tmp 1) pl (n - 1))
      else xs)"
  by pat_completeness auto
termination
  by (relation "measure (\<lambda>(lt, xs, pl, n). n)") auto

declare sortdown.simps [simp del]

definition npy_aheapsort :: "('a \<Rightarrow> 'a \<Rightarrow> bool) \<Rightarrow> 'a list \<Rightarrow> nat \<Rightarrow> nat \<Rightarrow> 'a list" where
  "npy_aheapsort lt xs pl n = sortdown lt (heapify lt xs pl n (n div 2)) pl n"

text \<open>\<open>npy_get_msb\<close>: the position of the highest bit that is set.\<close>

fun npy_get_msb :: "nat \<Rightarrow> nat" where
  "npy_get_msb n = (if n < 2 then 0 else Suc (npy_get_msb (n div 2)))"

declare npy_get_msb.simps [simp del]

text \<open>
  The outer loop of \<open>npy_aquicksort\<close> on one range. Its stack holds the ranges still to
  be sorted, disjoint from the one at hand, so the loop is the recursion that sorts the
  smaller part and then the larger. \<open>popped\<close> tells that the range was taken from the
  stack, or is the whole array: only there does the library test the depth \<open>cdepth\<close>
  and turn to the heap sort.
\<close>

function aquicksort_range ::
  "('a \<Rightarrow> 'a \<Rightarrow> bool) \<Rightarrow> bool \<Rightarrow> nat \<Rightarrow> nat \<Rightarrow> int \<Rightarrow> 'a list \<Rightarrow> 'a list" where
  "aquicksort_range lt popped pl pr cdepth xs =
     (if popped \<and> cdepth < 0 then npy_aheapsort lt xs pl (pr - pl + 1)
      else if pr - pl > 16 then
        (case quicksort_partition lt xs pl pr of
           (xs', i) \<Rightarrow>
             if i - pl < pr - i
             then aquicksort_range lt True (i + 1) pr (cdepth - 1)
                    (aquicksort_range lt False pl (i - 1) (cdepth - 1) xs')
             else aquicksort_range lt True pl (i - 1) (cdepth - 1)
                    (aquicksort_range lt False (i + 1) pr (cdepth - 1) xs'))
      else insertion_sort lt xs pl pr)"
  by pat_completeness auto
termination
proof -
  have up: "i < scan_up lt xs vp i j \<and> scan_up lt xs vp i j \<le> max (i + 1) j"
    for lt :: "'a \<Rightarrow> 'a \<Rightarrow> bool" and xs vp i j
  proof (induction lt xs vp i j rule: scan_up.induct)
    case (1 lt xs vp i j)
    show ?case
    proof (cases "lt (xs ! (i + 1)) vp \<and> i + 1 < j")
      case True
      with 1 have "i + 1 < scan_up lt xs vp (i + 1) j
          \<and> scan_up lt xs vp (i + 1) j \<le> max (i + 1 + 1) j"
        by simp
      with True show ?thesis by (subst (1 2) scan_up.simps) (simp add: Let_def)
    next
      case False
      then show ?thesis by (subst (1 2) scan_up.simps) (auto simp: Let_def)
    qed
  qed
  have down: "scan_down lt xs vp i j \<le> j"
    for lt :: "'a \<Rightarrow> 'a \<Rightarrow> bool" and xs vp i j
  proof (induction lt xs vp i j rule: scan_down.induct)
    case (1 lt xs vp i j)
    show ?case
    proof (cases "lt vp (xs ! (j - 1)) \<and> i < j - 1")
      case True
      with 1 have "scan_down lt xs vp i (j - 1) \<le> j - 1" by simp
      with True show ?thesis by (subst scan_down.simps) (simp add: Let_def)
    next
      case False
      then show ?thesis by (subst scan_down.simps) (auto simp: Let_def)
    qed
  qed
  have loop: "i < j \<Longrightarrow> i < snd (partition_loop lt xs vp i j)
      \<and> snd (partition_loop lt xs vp i j) \<le> j"
    for lt :: "'a \<Rightarrow> 'a \<Rightarrow> bool" and xs vp i j
  proof (induction lt xs vp i j rule: partition_loop.induct)
    case (1 lt xs vp i j)
    let ?i = "scan_up lt xs vp i j"
    let ?j = "scan_down lt xs vp ?i j"
    from up [of i lt xs vp j] "1.prems" have i: "i < ?i" "?i \<le> j" by auto
    show ?case
    proof (cases "?i \<ge> ?j")
      case True
      with i show ?thesis by (subst (1 2) partition_loop.simps) (simp add: Let_def)
    next
      case False
      then have "?i < ?j" by simp
      with "1.IH" [OF refl refl False] have
        "?i < snd (partition_loop lt (intp_swap xs ?i ?j) vp ?i ?j)"
        "snd (partition_loop lt (intp_swap xs ?i ?j) vp ?i ?j) \<le> ?j"
        by auto
      with False i down [of lt xs vp ?i j] show ?thesis
        by (subst (1 2) partition_loop.simps) (simp add: Let_def)
    qed
  qed
  have part: "pl < i \<and> i < pr"
    if "pr - pl > 16" and p: "quicksort_partition lt xs pl pr = (xs', i)"
    for lt :: "'a \<Rightarrow> 'a \<Rightarrow> bool" and xs pl pr xs' i
  proof -
    define pm where "pm = pl + (pr - pl) div 2"
    define xs4 where "xs4 = intp_swap (med3 lt xs pl pm pr) pm (pr - 1)"
    define vp where "vp = med3 lt xs pl pm pr ! pm"
    from p have "i = snd (partition_loop lt xs4 vp pl (pr - 1))"
      by (auto simp: quicksort_partition_def Let_def pm_def xs4_def vp_def split: prod.splits)
    moreover from that(1) have "pl < pr - 1" by simp
    ultimately have "pl < i" "i \<le> pr - 1"
      using loop [of pl "pr - 1" lt xs4 vp] by simp_all
    with that(1) show ?thesis by simp
  qed
  have part': "quicksort_partition lt xs pl pr = (xs', i) \<Longrightarrow> 16 < pr - pl \<Longrightarrow> pl < i \<and> i < pr"
    for lt :: "'a \<Rightarrow> 'a \<Rightarrow> bool" and xs pl pr xs' i
    using part by blast
  show ?thesis
    by (relation "measure (\<lambda>(lt, popped, pl, pr, cdepth, xs). pr - pl)")
      (auto dest!: part' sym [of "(a, b)" "quicksort_partition lt xs pl pr" for a b lt xs pl pr])
qed

declare aquicksort_range.simps [simp del]

text \<open>\<open>npy_aquicksort(v, tosort, num)\<close>, from the whole array at depth
  \<open>2 * npy_get_msb(num)\<close>.\<close>

definition npy_aquicksort :: "('a \<Rightarrow> 'a \<Rightarrow> bool) \<Rightarrow> 'a list \<Rightarrow> 'a list" where
  "npy_aquicksort lt tosort =
     (let num = length tosort
      in aquicksort_range lt True 0 (num - 1) (2 * int (npy_get_msb num)) tosort)"

text \<open>\<open>v.argsort(kind="quicksort")\<close> for an array \<open>v\<close> of objects: the positions
  \<open>0, ..., len(v) - 1\<close>, sorted by the keys they point to.\<close>

definition npy_argsort :: "('k \<Rightarrow> 'k \<Rightarrow> bool) \<Rightarrow> 'k list \<Rightarrow> nat list" where
  "npy_argsort key_lt v = npy_aquicksort (\<lambda>a b. key_lt (v ! a) (v ! b)) [0..<length v]"

subsection \<open>Notions in which the routine is shown to sort\<close>

text \<open>\<open>ys\<close> rearranges \<open>xs\<close> between the places \<open>pl\<close> and \<open>pr\<close> and is \<open>xs\<close> elsewhere.\<close>

definition range_perm :: "'a list \<Rightarrow> 'a list \<Rightarrow> nat \<Rightarrow> nat \<Rightarrow> bool" where
  "range_perm xs ys pl pr =
     (length ys = length xs \<and> mset ys = mset xs
      \<and> (\<forall>k. k < length xs \<longrightarrow> k < pl \<or> pr < k \<longrightarrow> ys ! k = xs ! k))"




section \<open>Translated-search table filter\<close>

text \<open>
  The translated-search table takes its column names from its header row, so a row is
  the list of its cells in column order. A row shorter than the header is read with
  missing values at its end.
\<close>

record tframe =
  columns :: "string list"
  rows :: "cell list frame"

fun col_index :: "string list \<Rightarrow> string \<Rightarrow> nat option" where
  "col_index [] c = None"
| "col_index (x # xs) c = (if x = c then Some 0 else map_option Suc (col_index xs c))"

definition cell_at :: "cell list \<Rightarrow> nat \<Rightarrow> cell" where
  "cell_at r k = (if k < length r then r ! k else Float NaN)"

text \<open>\<open>df[c]\<close>: the column named \<open>c\<close>, or \<open>KeyError\<close>.\<close>

definition getitem_column :: "tframe \<Rightarrow> string \<Rightarrow> error + cell list" where
  "getitem_column df c =
     (case col_index (columns df) c of
        None \<Rightarrow> Inl (KeyError c)
      | Some k \<Rightarrow> Inr (map (\<lambda>(i, r). cell_at r k) (rows df)))"

text \<open>\<open>column >= threshold\<close>, cell by cell; Python refuses to compare text with a float.\<close>

fun cell_ge :: "cell \<Rightarrow> pyfloat \<Rightarrow> error + bool" where
  "cell_ge (Str s) t = Inl TypeError"
| "cell_ge (Integer n) t = Inr (py_ge (Fin (of_int n)) t)"
| "cell_ge (Float x) t = Inr (py_ge x t)"

fun series_ge :: "cell list \<Rightarrow> pyfloat \<Rightarrow> error + bool list" where
  "series_ge [] t = Inr []"
| "series_ge (c # cs) t =
     (case cell_ge c t of
        Inl e \<Rightarrow> Inl e
      | Inr b \<Rightarrow> (case series_ge cs t of Inl e \<Rightarrow> Inl e | Inr bs \<Rightarrow> Inr (b # bs)))"

text \<open>
  \<open>nargsort(items, kind="quicksort", ascending=True, na_position="last")\<close>, which
  \<open>sort_values\<close> calls on the key column. The missing values are set aside, the other
  keys are sorted by the \<open>argsort\<close> of the array library, and the positions of the
  missing values go to the end. A column of text is an array of Python objects, sorted
  by \<open>npy_aquicksort\<close> with Python's \<open><\<close> on strings; text and numbers in one column do
  not compare and the sort raises \<open>TypeError\<close>. For a column of numbers the array
  library picks a routine by element type and processor: \<open>numeric_argsort\<close>, from the
  keys to their positions in sorted order.
\<close>

definition nargsort :: "(cell list \<Rightarrow> error + nat list) \<Rightarrow> cell list \<Rightarrow> error + nat list" where
  "nargsort numeric_argsort items =
     (let idx = [0..<length items];
          non_nans = filter (\<lambda>k. \<not> isna k) items;
          non_nan_idx = filter (\<lambda>i. \<not> isna (items ! i)) idx;
          nan_idx = filter (\<lambda>i. isna (items ! i)) idx
      in case (if list_all is_text non_nans
               then Inr (npy_argsort (<) (map the_str non_nans))
               else if list_all (\<lambda>k. \<not> is_text k) non_nans then numeric_argsort non_nans
               else Inl TypeError) of
           Inl e \<Rightarrow> Inl e
         | Inr order \<Rightarrow>
             if list_all (\<lambda>j. j < length non_nan_idx) order
             then Inr (map (\<lambda>j. non_nan_idx ! j) order @ nan_idx)
             else Inl IndexError)"

text \<open>
  \<open>df.sort_values(by=[c])\<close>, with \<open>kind\<close> left at its default \<open>quicksort\<close>: the rows are
  taken in the order of the positions that \<open>nargsort\<close> returns for the key column.
  \<open>argsort\<close> is the routine of the array library for a column of numbers.
\<close>

definition df_sort_values ::
  "(cell list \<Rightarrow> error + nat list) \<Rightarrow> tframe \<Rightarrow> string \<Rightarrow> error + tframe" where
  "df_sort_values argsort df c =
     (case getitem_column df c of
        Inl e \<Rightarrow> Inl e
      | Inr keys \<Rightarrow>
          (case nargsort argsort keys of
             Inl e \<Rightarrow> Inl e
           | Inr indexer \<Rightarrow>
               if \<forall>j \<in> set indexer. j < length (rows df)
               then Inr (df\<lparr>rows := map (\<lambda>j. rows df ! j) indexer\<rparr>)
               else Inl IndexError))"

text \<open>
  \<open>filtering_by_pident\<close>, lines 96-109. \<open>read_csv\<close> is
  \<open>pd.read_csv(infile, sep="\t", header=0)\<close>: the header and the rows of the file, or the
  exception it raises.
\<close>

definition filtering_by_pident ::
  "(cell list \<Rightarrow> error + nat list) \<Rightarrow> (string \<Rightarrow> error + string list \<times> cell list list)
     \<Rightarrow> string \<Rightarrow> pyfloat \<Rightarrow> string \<Rightarrow> error + tframe" where
  "filtering_by_pident argsort read_csv infile pident_threshold sort_values =
     (case read_csv infile of
        Inl e \<Rightarrow> Inl e
      | Inr (header, rs) \<Rightarrow>
          (let df = \<lparr>columns = header, rows = range_index rs\<rparr> in
           case getitem_column df ''pident'' of
             Inl e \<Rightarrow> Inl e
           | Inr col \<Rightarrow>
               (case series_ge col pident_threshold of
                  Inl e \<Rightarrow> Inl e
                | Inr sel \<Rightarrow>
                    (let df_filtered = df\<lparr>rows := getitem_mask (rows df) sel\<rparr>
                     in df_sort_values argsort df_filtered sort_values))))"


definition default_sort_values :: string where
  "default_sort_values = ''saccver''"

subsection \<open>Ascending order of a key column\<close>

text \<open>
  Numbers ascend by value, text ascends in the order of Python's string comparison, and
  missing values come last (\<open>na_position\<close> is left at \<open>last\<close>).
\<close>

fun key_rank :: "cell \<Rightarrow> nat \<times> real \<times> string" where
  "key_rank (Float NInf) = (0, 0, [])"
| "key_rank (Integer n) = (1, of_int n, [])"
| "key_rank (Float (Fin x)) = (1, x, [])"
| "key_rank (Float PInf) = (2, 0, [])"
| "key_rank (Str s) = (3, 0, s)"
| "key_rank (Float NaN) = (4, 0, [])"



section \<open>Paths\<close>

text \<open>
  \<open>Path(p)\<close> of \<open>pathlib\<close> for POSIX paths, held as the text \<open>str(Path(p))\<close>: the
  components of \<open>p\<close> between slashes, without the empty ones and the single dots, joined
  by single slashes after the root (\<open>/\<close>, or \<open>//\<close> when \<open>p\<close> starts with exactly two
  slashes); the path without root and components is \<open>.\<close>. \<open>.name\<close> is the last
  component; \<open>.suffix\<close> starts at the last dot of the name when that dot is neither its
  first nor its last character, and \<open>.stem\<close> is the name without the suffix.
\<close>

fun split_on :: "char \<Rightarrow> string \<Rightarrow> string list" where
  "split_on c [] = [[]]"
| "split_on c (x # xs) =
     (if x = c then [] # split_on c xs
      else (case split_on c xs of [] \<Rightarrow> [[x]] | p # ps \<Rightarrow> (x # p) # ps))"

definition path_parts :: "string \<Rightarrow> string list" where
  "path_parts p = filter (\<lambda>c. c \<noteq> [] \<and> c \<noteq> ''.'') (split_on CHR ''/'' p)"

definition path_root :: "string \<Rightarrow> string" where
  "path_root p =
     (if take 2 p = ''//'' \<and> take 3 p \<noteq> ''///'' then ''//''
      else if take 1 p = ''/'' then ''/''
      else [])"

fun join_slash :: "string list \<Rightarrow> string" where
  "join_slash [] = []"
| "join_slash [c] = c"
| "join_slash (c # cs) = c @ ''/'' @ join_slash cs"

definition path_str :: "string \<Rightarrow> string" where
  "path_str p =
     (if path_root p = [] \<and> path_parts p = [] then ''.''
      else path_root p @ join_slash (path_parts p))"

definition path_name :: "string \<Rightarrow> string" where
  "path_name p = (case path_parts p of [] \<Rightarrow> [] | c # cs \<Rightarrow> last (c # cs))"

fun rfind :: "char \<Rightarrow> string \<Rightarrow> nat option" where
  "rfind c [] = None"
| "rfind c (x # xs) =
     (case rfind c xs of
        Some i \<Rightarrow> Some (Suc i)
      | None \<Rightarrow> if x = c then Some 0 else None)"

definition path_suffix :: "string \<Rightarrow> string" where
  "path_suffix p =
     (let name = path_name p in
      case rfind CHR ''.'' name of
        None \<Rightarrow> []
      | Some i \<Rightarrow> if 0 < i \<and> Suc i < length name then drop i name else [])"

definition path_stem :: "string \<Rightarrow> string" where
  "path_stem p =
     (let name = path_name p in
      case rfind CHR ''.'' name of
        None \<Rightarrow> name
      | Some i \<Rightarrow> if 0 < i \<and> Suc i < length name then take i name else name)"

section \<open>Command line\<close>

datatype argval = VNone | VStr string | VInt int | VFloat pyfloat

datatype argtype = TStr | TInt | TFloat

record option_decl =
  opt_dest :: string
  opt_type :: argtype
  opt_default :: argval

type_synonym namespace = "(string \<times> argval) list"

fun of_opt :: "string option \<Rightarrow> argval" where
  "of_opt None = VNone"
| "of_opt (Some s) = VStr s"

text \<open>
  The options that lines 113-185 declare, in order, with the attribute each one stores.
  \<open>which\<close> and \<open>getenv\<close> are \<open>shutil.which\<close> and \<open>os.getenv\<close> at the time of the
  declarations. \<open>--version\<close> and \<open>--help\<close> store nothing.
\<close>

definition declared_options ::
  "(string \<Rightarrow> string option) \<Rightarrow> (string \<Rightarrow> string option) \<Rightarrow> option_decl list" where
  "declared_options which getenv =
     [ \<lparr>opt_dest = ''parallel_binary_path'', opt_type = TStr, opt_default = of_opt (which ''parallel'')\<rparr>,
       \<lparr>opt_dest = ''tblastn_binary_path'', opt_type = TStr, opt_default = of_opt (which ''tblastn'')\<rparr>,
       \<lparr>opt_dest = ''foldseek_binary_path'', opt_type = TStr, opt_default = of_opt (which ''foldseek'')\<rparr>,
       \<lparr>opt_dest = ''input'', opt_type = TStr, opt_default = VNone\<rparr>,
       \<lparr>opt_dest = ''foldseek_db_path'', opt_type = TStr, opt_default = of_opt (getenv ''FOLDSEEKDB'')\<rparr>,
       \<lparr>opt_dest = ''target_sequence_db_path'', opt_type = TStr, opt_default = VNone\<rparr>,
       \<lparr>opt_dest = ''evalue'', opt_type = TFloat, opt_default = VFloat (Fin (1 / 10 ^ 100))\<rparr>,
       \<lparr>opt_dest = ''block'', opt_type = TInt, opt_default = VInt 3000\<rparr>,
       \<lparr>opt_dest = ''jobs'', opt_type = TInt, opt_default = VInt 4\<rparr>,
       \<lparr>opt_dest = ''outfile_path'', opt_type = TStr, opt_default = VNone\<rparr> ]"

fun has_type :: "argtype \<Rightarrow> argval \<Rightarrow> bool" where
  "has_type TStr v = (case v of VStr s \<Rightarrow> True | _ \<Rightarrow> False)"
| "has_type TInt v = (case v of VInt n \<Rightarrow> True | _ \<Rightarrow> False)"
| "has_type TFloat v = (case v of VFloat x \<Rightarrow> True | _ \<Rightarrow> False)"

text \<open>
  \<open>parser.parse_args()\<close>. The command line is taken as the list of the options given,
  each under the attribute it stores and with its argument already converted. An option
  that was not declared, or an argument that does not convert to the declared type, ends
  the run with exit status 2. The namespace holds one attribute for each declared
  option and no other.
\<close>

fun supplied :: "(string \<times> argval) list \<Rightarrow> string \<Rightarrow> argval option" where
  "supplied [] d = None"
| "supplied ((d', v) # rest) d =
     (case supplied rest d of Some v' \<Rightarrow> Some v' | None \<Rightarrow> if d' = d then Some v else None)"

definition parse_args :: "option_decl list \<Rightarrow> (string \<times> argval) list \<Rightarrow> error + namespace" where
  "parse_args decls given =
     (if \<forall>(d, v) \<in> set given. \<exists>opt \<in> set decls. opt_dest opt = d \<and> has_type (opt_type opt) v
      then Inr (map (\<lambda>opt. (opt_dest opt,
                  case supplied given (opt_dest opt) of
                    Some v \<Rightarrow> v
                  | None \<Rightarrow> opt_default opt)) decls)
      else Inl (SystemExit 2))"

text \<open>\<open>args.name\<close>.\<close>

definition getattr :: "namespace \<Rightarrow> string \<Rightarrow> error + argval" where
  "getattr args name =
     (case map_of args name of None \<Rightarrow> Inl (AttributeError name) | Some v \<Rightarrow> Inr v)"

fun opt_str :: "argval \<Rightarrow> string option" where
  "opt_str (VStr s) = Some s"
| "opt_str _ = None"

text \<open>\<open>Path(v)\<close>: only text makes a path.\<close>

fun path_of :: "argval \<Rightarrow> error + string" where
  "path_of (VStr s) = Inr (path_str s)"
| "path_of _ = Inl TypeError"

section \<open>Pipeline driver\<close>

record foldseek_call =
  fs_pdbfile :: string
  fs_foldseek_binary_path :: argval
  fs_foldseek_db_path :: argval
  fs_outtsvfile :: string
  fs_jobs :: argval

record tblastn_call =
  tb_db :: argval
  tb_input_fasta :: string
  tb_outfile :: string
  tb_block :: argval
  tb_tblastn_binary_path :: argval
  tb_parallel_binary_path :: argval
  tb_evalue :: argval

record blastdbcmd_call =
  bc_blastdbcmd_binary_path :: argval
  bc_parallel_binary_path :: argval
  bc_outfile :: argval
  bc_db :: argval
  bc_df :: tframe
  bc_jobs :: argval

text \<open>What the driver does to the world outside, in the order it does it.\<close>

datatype event =
    RunFoldseek foldseek_call
  | ReadM8 string
  | WriteFasta string "seqrecord list"
  | RunTblastn tblastn_call
  | PrintDuration
  | ReadTsv string
  | RunBlastdbcmd blastdbcmd_call

text \<open>
  The world of a run: \<open>'w\<close> is the state of the file system and of everything else
  outside the program. Files are read and binaries are looked up in the world as it
  stands; writing the records and running an external program change it. \<open>env_argsort\<close>
  is the routine of the array library for a column of numbers and \<open>env_fmt\<close> is Python's
  formatting of a cell in an f-string.
\<close>

text \<open>
  Modelled from the spec: \<open>run_foldseek\<close>, \<open>run_tblastn\<close> and \<open>run_blastdbcmd\<close> live in
  \<open>plaseek.tools\<close>, which is not among the sources. The specification has each of them
  start an external program as an opaque subprocess whose failure ends the run; here
  each is a step on the world that may fail.
\<close>

record 'w env =
  env_exists :: "'w \<Rightarrow> string \<Rightarrow> bool"
  env_which :: "'w \<Rightarrow> string \<Rightarrow> string option"
  env_getenv :: "'w \<Rightarrow> string \<Rightarrow> string option"
  env_read_m8 :: "'w \<Rightarrow> string \<Rightarrow> error + m8row list"
  env_read_tsv :: "'w \<Rightarrow> string \<Rightarrow> error + string list \<times> cell list list"
  env_argsort :: "cell list \<Rightarrow> error + nat list"
  env_fmt :: "cell \<Rightarrow> string"
  env_run_foldseek :: "foldseek_call \<Rightarrow> 'w \<Rightarrow> (error + unit) \<times> 'w"
  env_write_fasta :: "string \<Rightarrow> seqrecord list \<Rightarrow> 'w \<Rightarrow> (error + unit) \<times> 'w"
  env_run_tblastn :: "tblastn_call \<Rightarrow> 'w \<Rightarrow> (error + unit) \<times> 'w"
  env_run_blastdbcmd :: "blastdbcmd_call \<Rightarrow> 'w \<Rightarrow> (error + unit) \<times> 'w"

text \<open>A step of the driver: from the world and the events so far to a value or an
  exception, the world and the events after it. An exception ends the run.\<close>

type_synonym ('w, 'a) prog = "'w \<times> event list \<Rightarrow> (error + 'a) \<times> 'w \<times> event list"

definition bind_prog :: "('w, 'a) prog \<Rightarrow> ('a \<Rightarrow> ('w, 'b) prog) \<Rightarrow> ('w, 'b) prog" where
  "bind_prog m f = (\<lambda>s. case m s of (Inl e, s') \<Rightarrow> (Inl e, s') | (Inr x, s') \<Rightarrow> f x s')"

definition pure_step :: "('w \<Rightarrow> error + 'a) \<Rightarrow> ('w, 'a) prog" where
  "pure_step f = (\<lambda>(w, tr). (f w, w, tr))"

definition world_step :: "event \<Rightarrow> ('w \<Rightarrow> (error + 'a) \<times> 'w) \<Rightarrow> ('w, 'a) prog" where
  "world_step ev act = (\<lambda>(w, tr). case act w of (r, w') \<Rightarrow> (r, w', tr @ [ev]))"

text \<open>Lines 193-206: the entry point, from the suffix of the input.\<close>

definition determine_entry :: "'w env \<Rightarrow> namespace \<Rightarrow> string \<Rightarrow> ('w, string) prog" where
  "determine_entry env args input =
     (if path_suffix input = ''.pdb'' then
        (let foldseek_m8file = path_str (path_stem input @ ''.m8'') in
         bind_prog (pure_step (\<lambda>w. getattr args ''foldseek_binary_path'')) (\<lambda>binary.
         bind_prog (pure_step (\<lambda>w. getattr args ''foldseek_db_path'')) (\<lambda>db.
         bind_prog (pure_step (\<lambda>w. getattr args ''jobs'')) (\<lambda>jobs.
         bind_prog
           (let call = \<lparr>fs_pdbfile = input, fs_foldseek_binary_path = binary,
                        fs_foldseek_db_path = db, fs_outtsvfile = foldseek_m8file,
                        fs_jobs = jobs\<rparr>
            in world_step (RunFoldseek call) (env_run_foldseek env call)) (\<lambda>_.
         pure_step (\<lambda>w. Inr foldseek_m8file))))))
      else if path_suffix input = ''.m8'' then pure_step (\<lambda>w. Inr input)
      else pure_step (\<lambda>w. Inl (ValueError
             ''Invalid input file suffix: the suffix must be .pdb or .m8.'')))"

text \<open>Lines 230-237: the arguments of \<open>run_blastdbcmd\<close> are evaluated in order, then the
  stage runs.\<close>

definition extract_final_records :: "'w env \<Rightarrow> namespace \<Rightarrow> tframe \<Rightarrow> ('w, unit) prog" where
  "extract_final_records env args filtered_tblastn =
     bind_prog (pure_step (\<lambda>w. getattr args ''blastdbcmd_binary_path'')) (\<lambda>binary.
     bind_prog (pure_step (\<lambda>w. getattr args ''parallel_binary_path'')) (\<lambda>parallel.
     bind_prog (pure_step (\<lambda>w. getattr args ''outfile_path'')) (\<lambda>outfile.
     bind_prog (pure_step (\<lambda>w. getattr args ''target_sequence_db_path'')) (\<lambda>db.
     bind_prog (pure_step (\<lambda>w. getattr args ''jobs'')) (\<lambda>jobs.
       (let call = \<lparr>bc_blastdbcmd_binary_path = binary, bc_parallel_binary_path = parallel,
                    bc_outfile = outfile, bc_db = db, bc_df = filtered_tblastn,
                    bc_jobs = jobs\<rparr>
        in world_step (RunBlastdbcmd call) (env_run_blastdbcmd env call)))))))"

text \<open>Lines 208-237: the stages after the entry point.\<close>

definition run_stages :: "'w env \<Rightarrow> namespace \<Rightarrow> string \<Rightarrow> string \<Rightarrow> ('w, unit) prog" where
  "run_stages env args input foldseek_m8file =
     bind_prog (world_step (ReadM8 foldseek_m8file) (\<lambda>w.
        (filtering_m8file (env_read_m8 env w) foldseek_m8file default_eval_threshold, w)))
       (\<lambda>filtered_foldseekhits.
     (let nodup_fasta = path_stem input @ ''_nodup.fasta'';
          records = remove_duplicates (env_fmt env) filtered_foldseekhits in
     bind_prog (world_step (WriteFasta nodup_fasta records)
        (env_write_fasta env nodup_fasta records)) (\<lambda>_.
     (let tblastn_result = path_stem input @ ''_tblastn.tsv'' in
     bind_prog (pure_step (\<lambda>w. getattr args ''target_sequence_db_path'')) (\<lambda>db.
     bind_prog (pure_step (\<lambda>w. getattr args ''block'')) (\<lambda>block.
     bind_prog (pure_step (\<lambda>w. getattr args ''tblastn_binary_path'')) (\<lambda>tblastn.
     bind_prog (pure_step (\<lambda>w. getattr args ''parallel_binary_path'')) (\<lambda>parallel.
     bind_prog (pure_step (\<lambda>w. getattr args ''evalue'')) (\<lambda>ev.
     bind_prog
       (let call = \<lparr>tb_db = db, tb_input_fasta = nodup_fasta, tb_outfile = tblastn_result,
                    tb_block = block, tb_tblastn_binary_path = tblastn,
                    tb_parallel_binary_path = parallel, tb_evalue = ev\<rparr>
        in world_step (RunTblastn call) (env_run_tblastn env call)) (\<lambda>_.
     bind_prog (world_step PrintDuration (\<lambda>w. (Inr (), w))) (\<lambda>_.
     bind_prog (world_step (ReadTsv tblastn_result) (\<lambda>w.
        (filtering_by_pident (env_argsort env) (env_read_tsv env w) tblastn_result
           (Fin 98) default_sort_values, w))) (\<lambda>filtered_tblastn.
     extract_final_records env args filtered_tblastn))))))))))))"

text \<open>\<open>main\<close>, lines 112-237, run on the options \<open>given\<close> on the command line.\<close>

definition main :: "'w env \<Rightarrow> (string \<times> argval) list \<Rightarrow> ('w, unit) prog" where
  "main env given =
     bind_prog (pure_step (\<lambda>w.
        parse_args (declared_options (env_which env w) (env_getenv env w)) given)) (\<lambda>args.
     bind_prog (pure_step (\<lambda>w. getattr args ''parallel_binary_path'')) (\<lambda>parallel.
     bind_prog (pure_step (\<lambda>w. getattr args ''tblastn_binary_path'')) (\<lambda>tblastn.
     bind_prog (pure_step (\<lambda>w. getattr args ''foldseek_binary_path'')) (\<lambda>foldseek.
     bind_prog (pure_step (\<lambda>w. check_binaries_available (env_exists env w)
        (opt_str parallel) (opt_str tblastn) (opt_str foldseek))) (\<lambda>_.
     bind_prog (pure_step (\<lambda>w. getattr args ''input'')) (\<lambda>inp.
     bind_prog (pure_step (\<lambda>w. path_of inp)) (\<lambda>input.
     bind_prog (determine_entry env args input) (\<lambda>foldseek_m8file.
     run_stages env args input foldseek_m8file))))))))"

text \<open>
  The events that may follow the entry point, for the stem of the input and the table
  \<open>foldseek_m8file\<close> that the entry point chose, and the stage each event belongs to.
\<close>

fun later_event_ok :: "string \<Rightarrow> string \<Rightarrow> event \<Rightarrow> bool" where
  "later_event_ok stem foldseek_m8file (ReadM8 p) = (p = foldseek_m8file)"
| "later_event_ok stem foldseek_m8file (WriteFasta p records) = (p = stem @ ''_nodup.fasta'')"
| "later_event_ok stem foldseek_m8file (RunTblastn call) =
     (tb_input_fasta call = stem @ ''_nodup.fasta''
      \<and> tb_outfile call = stem @ ''_tblastn.tsv'')"
| "later_event_ok stem foldseek_m8file PrintDuration = True"
| "later_event_ok stem foldseek_m8file (ReadTsv p) = (p = stem @ ''_tblastn.tsv'')"
| "later_event_ok stem foldseek_m8file (RunFoldseek call) = False"
| "later_event_ok stem foldseek_m8file (RunBlastdbcmd call) = False"

fun stage_of :: "event \<Rightarrow> nat" where
  "stage_of (RunFoldseek call) = 1"
| "stage_of (ReadM8 p) = 2"
| "stage_of (WriteFasta p records) = 3"
| "stage_of (RunTblastn call) = 4"
| "stage_of PrintDuration = 4"
| "stage_of (ReadTsv p) = 5"
| "stage_of (RunBlastdbcmd call) = 6"

section \<open>Tables as objects\<close>

text \<open>
  Python holds a table as an object and passes its address. A store is the list of the
  objects made so far; the address of an object is its position, and a new object goes to
  the end. The three functions are given once more over a store, each library call as
  the step on the store that the call is: reading a file, selecting rows with a boolean
  column and sorting with \<open>inplace\<close> left at \<open>False\<close> each make a new table; only
  \<open>sort_values\<close> with \<open>inplace=True\<close> would overwrite the table it is called on.
\<close>

datatype obj = M8Table "m8row frame" | TsvTable tframe

definition new_obj :: "obj \<Rightarrow> obj list \<Rightarrow> nat \<times> obj list" where
  "new_obj ob st = (length st, st @ [ob])"

definition lookup :: "obj list \<Rightarrow> nat \<Rightarrow> obj option" where
  "lookup st a = (if a < length st then Some (st ! a) else None)"

text \<open>Line 68 on the table at \<open>df\<close>.\<close>

definition st_filter_evalue :: "nat \<Rightarrow> pyfloat \<Rightarrow> obj list \<Rightarrow> (error + nat) \<times> obj list" where
  "st_filter_evalue df eval_threshold st =
     (case lookup st df of
        Some (M8Table t) \<Rightarrow>
          (case new_obj (M8Table (filter_evalue t eval_threshold)) st of
             (df_filtered, st') \<Rightarrow> (Inr df_filtered, st'))
      | _ \<Rightarrow> (Inl TypeError, st))"

definition filtering_m8file_st ::
  "(string \<Rightarrow> error + m8row list) \<Rightarrow> string \<Rightarrow> pyfloat \<Rightarrow> obj list
     \<Rightarrow> (error + nat) \<times> obj list" where
  "filtering_m8file_st read_csv file eval_threshold st =
     (case read_csv file of
        Inl e \<Rightarrow> (Inl e, st)
      | Inr rs \<Rightarrow>
          (case new_obj (M8Table (range_index rs)) st of
             (df, st1) \<Rightarrow> st_filter_evalue df eval_threshold st1))"

text \<open>\<open>remove_duplicates\<close> on the table at \<open>hits\<close>: the loop reads its rows; the records
  it returns are new values.\<close>

definition remove_duplicates_st ::
  "(cell \<Rightarrow> string) \<Rightarrow> nat \<Rightarrow> obj list \<Rightarrow> (error + seqrecord list) \<times> obj list" where
  "remove_duplicates_st fmt hits st =
     (case lookup st hits of
        Some (M8Table t) \<Rightarrow> (Inr (remove_duplicates fmt t), st)
      | _ \<Rightarrow> (Inl TypeError, st))"

text \<open>Line 106 on the table at \<open>df\<close>.\<close>

definition st_filter_pident :: "nat \<Rightarrow> pyfloat \<Rightarrow> obj list \<Rightarrow> (error + nat) \<times> obj list" where
  "st_filter_pident df pident_threshold st =
     (case lookup st df of
        Some (TsvTable t) \<Rightarrow>
          (case getitem_column t ''pident'' of
             Inl e \<Rightarrow> (Inl e, st)
           | Inr col \<Rightarrow>
               (case series_ge col pident_threshold of
                  Inl e \<Rightarrow> (Inl e, st)
                | Inr sel \<Rightarrow>
                    (case new_obj (TsvTable (t\<lparr>rows := getitem_mask (rows t) sel\<rparr>)) st of
                       (df_filtered, st') \<Rightarrow> (Inr df_filtered, st'))))
      | _ \<Rightarrow> (Inl TypeError, st))"

text \<open>\<open>df.sort_values(by=[c], inplace=inplace)\<close> on the table at \<open>df\<close>: the address of
  the sorted table, or \<open>None\<close> when the table was sorted in place.\<close>

definition st_sort_values ::
  "(cell list \<Rightarrow> error + nat list) \<Rightarrow> bool \<Rightarrow> nat \<Rightarrow> string \<Rightarrow> obj list
     \<Rightarrow> (error + nat option) \<times> obj list" where
  "st_sort_values argsort inplace df c st =
     (case lookup st df of
        Some (TsvTable t) \<Rightarrow>
          (case df_sort_values argsort t c of
             Inl e \<Rightarrow> (Inl e, st)
           | Inr sorted_t \<Rightarrow>
               if inplace then (Inr None, st[df := TsvTable sorted_t])
               else (case new_obj (TsvTable sorted_t) st of
                       (df_sorted, st') \<Rightarrow> (Inr (Some df_sorted), st')))
      | _ \<Rightarrow> (Inl TypeError, st))"

definition filtering_by_pident_st ::
  "(cell list \<Rightarrow> error + nat list) \<Rightarrow> (string \<Rightarrow> error + string list \<times> cell list list)
     \<Rightarrow> string \<Rightarrow> pyfloat \<Rightarrow> string \<Rightarrow> obj list \<Rightarrow> (error + nat option) \<times> obj list" where
  "filtering_by_pident_st argsort read_csv infile pident_threshold sort_values st =
     (case read_csv infile of
        Inl e \<Rightarrow> (Inl e, st)
      | Inr (header, rs) \<Rightarrow>
          (case new_obj (TsvTable \<lparr>columns = header, rows = range_index rs\<rparr>) st of
             (df, st1) \<Rightarrow>
               (case st_filter_pident df pident_threshold st1 of
                  (Inl e, st2) \<Rightarrow> (Inl e, st2)
                | (Inr df_filtered, st2) \<Rightarrow>
                    st_sort_values argsort False df_filtered sort_values st2)))"


section \<open>Example data\<close>

definition example_hit :: "string \<Rightarrow> pyfloat \<Rightarrow> string \<Rightarrow> m8row" where
  "example_hit header ev sq =
     \<lparr> query = Str ''query'', theader = header, pident = Float (Fin 100), alnlen = Integer 4,
       mismatch = Integer 0, gapopen = Integer 0, qstart = Integer 1, qend = Integer 4,
       tstart = Integer 1, tend = Integer 4, prob = Float (Fin 1), evalue = ev,
       bits = Integer 50, qlen = Integer 4, tlen = Integer 4, qaln = Str sq, taln = Str sq,
       tca = Str [], tseq = sq, taxid = Integer 562, taxname = Str ''Escherichia coli'' \<rparr>"

definition example_m8_files :: "string \<Rightarrow> error + m8row list" where
  "example_m8_files file =
     (if file = ''sample.m8''
      then Inr [example_hit ''seq1'' (Fin (1 / 10 ^ 20)) ''ATGC'',
                example_hit ''seq2'' (Fin (1 / 10 ^ 5)) ''ATGC'']
      else if file = ''empty.m8'' then Inr []
      else if file = ''filtered.m8'' then Inr [example_hit ''seq1'' (Fin (1 / 10 ^ 20)) ''ATGC'']
      else Inl (FileNotFoundError file))"

definition example_exists :: "string \<Rightarrow> bool" where
  "example_exists p = (p = ''/usr/bin/tblastn'' \<or> p = ''/usr/bin/foldseek'')"

fun example_fmt :: "cell \<Rightarrow> string" where
  "example_fmt (Str s) = s"
| "example_fmt (Integer n) = (if n = 562 then ''562'' else ''0'')"
| "example_fmt (Float x) = (if x = Fin 100 then ''100.0'' else ''1e-20'')"

definition example_tie_rows :: "cell list list" where
  "example_tie_rows =
     map (\<lambda>n. [Str ''NZ_CP000001.1'', Float (Fin 100), Integer (int n)]) [0..<18]"

definition example_tsv_files :: "string \<Rightarrow> error + string list \<times> cell list list" where
  "example_tsv_files file =
     (if file = ''sample_tblastn.tsv''
      then Inr ([''qaccver'', ''saccver'', ''pident''],
                [[Str ''seq1'', Str ''NZ_B'', Float (Fin (995 / 10))],
                 [Str ''seq1'', Str ''NZ_A'', Integer 98],
                 [Str ''seq1'', Str ''NZ_C'', Float (Fin (979 / 10))]])
      else if file = ''ties_tblastn.tsv''
      then Inr ([''saccver'', ''pident'', ''sstart''], example_tie_rows)
      else if file = ''no_saccver.tsv''
      then Inr ([''qaccver'', ''pident''], [[Str ''seq1'', Float (Fin 99)]])
      else if file = ''short_row.tsv''
      then Inr ([''saccver'', ''pident''], [[Str ''NZ_A'', Float (Fin 99)], [Str ''NZ_B'']])
      else if file = ''text_pident.tsv''
      then Inr ([''saccver'', ''pident''], [[Str ''NZ_A'', Str ''high'']])
      else if file = ''malformed.tsv'' then Inl ParserError
      else Inl (FileNotFoundError file))"

text \<open>A routine for a column of numbers: the one for text, by value.\<close>

definition example_argsort :: "cell list \<Rightarrow> error + nat list" where
  "example_argsort keys = Inr (npy_argsort (\<lambda>a b. key_rank a < key_rank b) keys)"

text \<open>A world in which every binary is found, every external program succeeds and the
  files are the example files.\<close>

definition example_env :: "unit env" where
  "example_env =
     \<lparr> env_exists = (\<lambda>w p. True),
       env_which = (\<lambda>w name. Some (''/usr/bin/'' @ name)),
       env_getenv = (\<lambda>w name. None),
       env_read_m8 = (\<lambda>w. example_m8_files),
       env_read_tsv = (\<lambda>w. example_tsv_files),
       env_argsort = example_argsort,
       env_fmt = example_fmt,
       env_run_foldseek = (\<lambda>call w. (Inr (), w)),
       env_write_fasta = (\<lambda>file records w. (Inr (), w)),
       env_run_tblastn = (\<lambda>call w. (Inr (), w)),
       env_run_blastdbcmd = (\<lambda>call w. (Inr (), w)) \<rparr>"

definition example_given :: "string \<Rightarrow> (string \<times> argval) list" where
  "example_given file = [(''input'', VStr file), (''target_sequence_db_path'', VStr ''plasmids'')]"

definition example_args :: "string \<Rightarrow> namespace" where
  "example_args file =
     [(''parallel_binary_path'', VStr ''/usr/bin/parallel''),
      (''tblastn_binary_path'', VStr ''/usr/bin/tblastn''),
      (''foldseek_binary_path'', VStr ''/usr/bin/foldseek''),
      (''input'', VStr file),
      (''foldseek_db_path'', VNone),
      (''target_sequence_db_path'', VStr ''plasmids''),
      (''evalue'', VFloat (Fin (1 / 10 ^ 100))),
      (''block'', VInt 3000),
      (''jobs'', VInt 4),
      (''outfile_path'', VNone)]"

definition example_tblastn_call :: tblastn_call where
  "example_tblastn_call =
     \<lparr> tb_db = VStr ''plasmids'', tb_input_fasta = ''sample_nodup.fasta'',
       tb_outfile = ''sample_tblastn.tsv'', tb_block = VInt 3000,
       tb_tblastn_binary_path = VStr ''/usr/bin/tblastn'',
       tb_parallel_binary_path = VStr ''/usr/bin/parallel'',
       tb_evalue = VFloat (Fin (1 / 10 ^ 100)) \<rparr>"


definition example_record :: seqrecord where
  "example_record =
     \<lparr> rec_id = ''seq1'', rec_name = ''seq1'', rec_seq = ''ATGC'',
       description = ''pident=100.0, evalue=1e-20 taxid=562, taxname=Escherichia coli, '' \<rparr>"

definition example_store :: "obj list" where
  "example_store =
     [M8Table [(0, example_hit ''seq1'' (Fin (1 / 10 ^ 20)) ''ATGC''),
               (1, example_hit ''seq2'' (Fin (1 / 10 ^ 5)) ''ATGC'')]]"


section \<open>Properties of the binary validator\<close>

lemma check_binaries_available_missing:
  assumes "\<not> exists p \<or> \<not> exists t \<or> \<not> exists f"
  shows "\<exists>msg. check_binaries_available exists (Some p) (Some t) (Some f)
           = Inl (FileNotFoundError msg)"
  using assms by (auto simp: check_binaries_available_def)

lemma check_binaries_available_present:
  assumes "exists p" and "exists t" and "exists f"
  shows "check_binaries_available exists (Some p) (Some t) (Some f) = Inr ()"
  using assms by (simp add: check_binaries_available_def)

text \<open>
  C1. The validator is to name the binary whose path failed the check. With the path of
  \<open>parallel\<close> missing and the other two present, the exception raised says that
  \<open>foldseek\<close> was not found: the messages of the first and of the third check are
  exchanged.
\<close>

theorem check_binaries_available_names_wrong_tool:
  "check_binaries_available example_exists
     (Some ''/usr/bin/parallel'') (Some ''/usr/bin/tblastn'') (Some ''/usr/bin/foldseek'')
   = Inl (FileNotFoundError ''foldseek not found. Please set PATH to foldseek.'')"
  by (simp add: check_binaries_available_def example_exists_def)

section \<open>Properties of the structural-hit table filter\<close>

lemma getitem_mask_map: "getitem_mask df (map p df) = filter p df"
  unfolding getitem_mask_def by (induction df) auto

lemma filter_evalue_filter:
  "filter_evalue df t = filter (\<lambda>(i, row). py_lt (evalue row) t) df"
  by (simp add: filter_evalue_def getitem_mask_map)

lemma py_lt_iff_not_ge: "a \<noteq> NaN \<Longrightarrow> b \<noteq> NaN \<Longrightarrow> py_lt a b \<longleftrightarrow> \<not> py_ge a b"
  by (cases a; cases b) auto

lemma map_snd_filter_enumerate:
  "map snd (filter (\<lambda>(i, r). P r) (enumerate n xs)) = filter P xs"
  by (induction xs arbitrary: n) auto

text \<open>
  C2. On a file that reads as a table, \<open>filtering_m8file\<close> returns the rows whose
  e-value is strictly below the threshold and no other, each with its label and in the
  order of the file. Where neither the e-value nor the threshold is NaN, the rows left
  out are those whose e-value is at or above the threshold.
\<close>

theorem filtering_m8file_exact:
  assumes "read_csv file = Inr rs"
  shows "\<exists>out. filtering_m8file read_csv file t = Inr out
           \<and> out = filter (\<lambda>(i, row). py_lt (evalue row) t) (range_index rs)
           \<and> subseq out (range_index rs)
           \<and> (\<forall>x \<in> set (range_index rs). x \<in> set out \<longleftrightarrow> py_lt (evalue (snd x)) t)
           \<and> (t \<noteq> NaN \<longrightarrow> (\<forall>x \<in> set (range_index rs). evalue (snd x) \<noteq> NaN \<longrightarrow>
                 (x \<notin> set out \<longleftrightarrow> py_ge (evalue (snd x)) t)))"
  using assms
  by (auto simp: filtering_m8file_def filter_evalue_filter py_lt_iff_not_ge)

theorem filtering_m8file_exact_witness:
  "example_m8_files ''sample.m8''
     = Inr [example_hit ''seq1'' (Fin (1 / 10 ^ 20)) ''ATGC'',
            example_hit ''seq2'' (Fin (1 / 10 ^ 5)) ''ATGC'']
   \<and> filtering_m8file example_m8_files ''sample.m8'' default_eval_threshold
     = Inr [(0, example_hit ''seq1'' (Fin (1 / 10 ^ 20)) ''ATGC'')]"
proof -
  have h: "example_m8_files ''sample.m8''
     = Inr [example_hit ''seq1'' (Fin (1 / 10 ^ 20)) ''ATGC'',
            example_hit ''seq2'' (Fin (1 / 10 ^ 5)) ''ATGC'']"
    by (simp add: example_m8_files_def)
  show ?thesis
    using h filtering_m8file_exact
      [of example_m8_files "''sample.m8''" _ default_eval_threshold, OF h]
    by (simp add: range_index_def enumerate_eq_zip example_hit_def default_eval_threshold_def)
qed

text \<open>
  C6. A file that reads as a table without rows gives the empty table, not an
  exception.
\<close>

theorem filtering_m8file_empty:
  assumes "read_csv file = Inr []"
  shows "filtering_m8file read_csv file t = Inr []"
  using assms by (simp add: filtering_m8file_def filter_evalue_filter range_index_def)

theorem filtering_m8file_empty_witness:
  "example_m8_files ''empty.m8'' = Inr []
   \<and> filtering_m8file example_m8_files ''empty.m8'' default_eval_threshold = Inr []"
proof -
  have h: "example_m8_files ''empty.m8'' = Inr []"
    by (simp add: example_m8_files_def)
  show ?thesis
    using h filtering_m8file_empty
      [of example_m8_files "''empty.m8''" default_eval_threshold, OF h]
    by simp
qed

text \<open>
  C7. Filtering is idempotent: the filter of line 68 leaves a table that
  \<open>filtering_m8file\<close> returned as it is, and a file that holds the rows of that table
  is read back and filtered to the same rows.
\<close>

theorem filtering_m8file_idempotent:
  assumes "filtering_m8file read_csv file t = Inr out"
    and "read_csv file' = Inr (map snd out)"
  shows "filter_evalue out t = out
     \<and> (\<exists>out'. filtering_m8file read_csv file' t = Inr out' \<and> map snd out' = map snd out)"
proof -
  from assms(1) obtain rs where out: "out = filter_evalue (range_index rs) t"
    by (auto simp: filtering_m8file_def split: sum.splits)
  have 1: "filter_evalue out t = out"
    by (simp add: out filter_evalue_filter)
  have "filter (\<lambda>r. py_lt (evalue r) t) (map snd out) = map snd out"
    by (simp add: out filter_evalue_filter filter_map comp_def case_prod_unfold)
  then have "map snd (filter_evalue (range_index (map snd out)) t) = map snd out"
    by (simp add: filter_evalue_filter range_index_def map_snd_filter_enumerate)
  with assms(2) 1 show ?thesis
    by (simp add: filtering_m8file_def)
qed

theorem filtering_m8file_idempotent_witness:
  "filtering_m8file example_m8_files ''sample.m8'' default_eval_threshold
     = Inr [(0, example_hit ''seq1'' (Fin (1 / 10 ^ 20)) ''ATGC'')]
   \<and> example_m8_files ''filtered.m8'' = Inr [example_hit ''seq1'' (Fin (1 / 10 ^ 20)) ''ATGC'']
   \<and> filter_evalue [(0, example_hit ''seq1'' (Fin (1 / 10 ^ 20)) ''ATGC'')] default_eval_threshold
     = [(0, example_hit ''seq1'' (Fin (1 / 10 ^ 20)) ''ATGC'')]"
proof -
  have h1: "filtering_m8file example_m8_files ''sample.m8'' default_eval_threshold
     = Inr [(0, example_hit ''seq1'' (Fin (1 / 10 ^ 20)) ''ATGC'')]"
    by (simp add: filtering_m8file_def example_m8_files_def filter_evalue_filter
        range_index_def enumerate_eq_zip example_hit_def default_eval_threshold_def)
  have h2: "example_m8_files ''filtered.m8''
     = Inr (map snd [(0::nat, example_hit ''seq1'' (Fin (1 / 10 ^ 20)) ''ATGC'')])"
    by (simp add: example_m8_files_def)
  show ?thesis
    using h1 h2 filtering_m8file_idempotent
      [of example_m8_files "''sample.m8''" default_eval_threshold _ "''filtered.m8''", OF h1 h2]
    by simp
qed

section \<open>Properties of the deduplicator\<close>

lemma remove_duplicates_loop_eq:
  "remove_duplicates_loop fmt rs seen acc =
     acc @ map (seqrecord_of fmt)
       (map (\<lambda>i. rs ! i)
         (filter (\<lambda>i. tseq (rs ! i) \<notin> seen \<and> tseq (rs ! i) \<notin> set (map tseq (take i rs)))
            [0..<length rs]))"
proof (induction rs arbitrary: seen acc)
  case Nil
  then show ?case by simp
next
  case (Cons r rs)
  have upt: "[0..<length (r # rs)] = 0 # map Suc [0..<length rs]"
    by (simp add: upt_conv_Cons map_Suc_upt del: upt_Suc)
  show ?case
  proof (cases "tseq r \<in> seen")
    case True
    have "filter (\<lambda>i. tseq (rs ! i) \<notin> seen \<and> tseq (rs ! i) \<notin> tseq ` set (take i rs))
            [0..<length rs]
        = filter (\<lambda>i. tseq (rs ! i) \<notin> seen \<and> tseq (rs ! i) \<noteq> tseq r
                       \<and> tseq (rs ! i) \<notin> tseq ` set (take i rs)) [0..<length rs]"
      using True by (intro filter_cong) auto
    with True show ?thesis
      by (simp only: upt) (simp add: Cons.IH filter_map comp_def del: upt_Suc)
  next
    case False
    have "filter (\<lambda>i. tseq (rs ! i) \<noteq> tseq r \<and> tseq (rs ! i) \<notin> seen
                       \<and> tseq (rs ! i) \<notin> tseq ` set (take i rs)) [0..<length rs]
        = filter (\<lambda>i. tseq (rs ! i) \<notin> seen \<and> tseq (rs ! i) \<noteq> tseq r
                       \<and> tseq (rs ! i) \<notin> tseq ` set (take i rs)) [0..<length rs]"
      by (intro filter_cong) auto
    with False show ?thesis
      by (simp only: upt) (simp add: Cons.IH filter_map comp_def del: upt_Suc)
  qed
qed

lemma remove_duplicates_first_rows:
  "remove_duplicates fmt hits = map (seqrecord_of fmt) (first_rows (map snd hits))"
  by (simp add: remove_duplicates_def first_rows_def remove_duplicates_loop_eq)

lemma length_first_rows: "length (first_rows rs) \<le> length rs"
proof -
  have "length (first_rows rs) \<le> length [0..<length rs]"
    unfolding first_rows_def length_map by (rule length_filter_le)
  then show ?thesis by simp
qed

lemma distinct_first_rows: "distinct (map tseq (first_rows rs))"
proof -
  let ?P = "\<lambda>i. tseq (rs ! i) \<notin> set (map tseq (take i rs))"
  let ?is = "filter ?P [0..<length rs]"
  have "inj_on (\<lambda>i. tseq (rs ! i)) (set ?is)"
  proof (rule inj_onI)
    fix i j
    assume i: "i \<in> set ?is" and j: "j \<in> set ?is" and eq: "tseq (rs ! i) = tseq (rs ! j)"
    show "i = j"
    proof (rule ccontr)
      assume "i \<noteq> j"
      then consider "i < j" | "j < i" by linarith
      then show False
      proof cases
        case 1
        with i j have "rs ! i \<in> set (take j rs)"
          by (auto simp: in_set_conv_nth)
        then have "tseq (rs ! i) \<in> tseq ` set (take j rs)" by (rule imageI)
        with j eq show False by simp
      next
        case 2
        with i j have "rs ! j \<in> set (take i rs)"
          by (auto simp: in_set_conv_nth)
        then have "tseq (rs ! j) \<in> tseq ` set (take i rs)" by (rule imageI)
        with i eq show False by simp
      qed
    qed
  qed
  then show ?thesis
    by (simp add: first_rows_def distinct_map comp_def)
qed

lemma tseq_first_rows: "tseq ` set (first_rows rs) = tseq ` set rs"
proof
  show "tseq ` set (first_rows rs) \<subseteq> tseq ` set rs"
    by (auto simp: first_rows_def)
next
  show "tseq ` set rs \<subseteq> tseq ` set (first_rows rs)"
  proof
    fix s
    assume "s \<in> tseq ` set rs"
    then obtain k where k: "k < length rs" "tseq (rs ! k) = s"
      by (auto simp: in_set_conv_nth)
    define i where "i = (LEAST n. n < length rs \<and> tseq (rs ! n) = s)"
    have i: "i < length rs \<and> tseq (rs ! i) = s"
      unfolding i_def by (rule LeastI [of _ k]) (use k in simp)
    have least: "\<And>n. n < i \<Longrightarrow> \<not> (n < length rs \<and> tseq (rs ! n) = s)"
      unfolding i_def by (rule not_less_Least)
    have "s \<notin> set (map tseq (take i rs))"
    proof
      assume "s \<in> set (map tseq (take i rs))"
      then obtain n where "n < i" "n < length rs" "tseq (rs ! n) = s"
        by (auto simp: in_set_conv_nth)
      with least show False by blast
    qed
    with i have "rs ! i \<in> set (first_rows rs)"
      by (auto simp: first_rows_def)
    with i show "s \<in> tseq ` set (first_rows rs)" by force
  qed
qed

lemma rec_seq_seqrecord_of: "rec_seq (seqrecord_of fmt row) = tseq row"
  by (simp add: seqrecord_of_def)

text \<open>
  C3. \<open>remove_duplicates\<close> emits no more records than the table has rows; no two
  emitted records carry the same sequence; every target sequence of the table is the
  sequence of an emitted record; and the records are, in table order, one for each row
  that is the first to carry its target sequence: its \<open>id\<close> and \<open>name\<close> are the header
  of that row, its sequence is the target sequence of that row, and its description
  spells out the percent identity, e-value, taxonomy id and taxonomy name of that row.
\<close>

theorem remove_duplicates_first_occurrence:
  "length (remove_duplicates fmt hits) \<le> length hits
   \<and> distinct (map rec_seq (remove_duplicates fmt hits))
   \<and> rec_seq ` set (remove_duplicates fmt hits) = tseq ` snd ` set hits
   \<and> remove_duplicates fmt hits =
       map (\<lambda>row. \<lparr> rec_id = theader row, rec_name = theader row, rec_seq = tseq row,
                       description =
                         ''pident='' @ fmt (pident row)
                         @ '', evalue='' @ fmt (Float (evalue row))
                         @ '' taxid='' @ fmt (taxid row)
                         @ '', taxname='' @ fmt (taxname row) @ '', '' \<rparr>)
         (first_rows (map snd hits))
   \<and> map rec_id (remove_duplicates fmt hits) = map theader (first_rows (map snd hits))
   \<and> map rec_name (remove_duplicates fmt hits) = map theader (first_rows (map snd hits))
   \<and> map rec_seq (remove_duplicates fmt hits) = map tseq (first_rows (map snd hits))"
proof -
  have len: "length (remove_duplicates fmt hits) \<le> length hits"
    using length_first_rows [of "map snd hits"] by (simp add: remove_duplicates_first_rows)
  have seqs: "map rec_seq (remove_duplicates fmt hits) = map tseq (first_rows (map snd hits))"
    by (simp add: remove_duplicates_first_rows comp_def rec_seq_seqrecord_of)
  have ids: "map rec_id (remove_duplicates fmt hits) = map theader (first_rows (map snd hits))"
    by (simp add: remove_duplicates_first_rows comp_def seqrecord_of_def)
  have names: "map rec_name (remove_duplicates fmt hits) = map theader (first_rows (map snd hits))"
    by (simp add: remove_duplicates_first_rows comp_def seqrecord_of_def)
  have dist: "distinct (map rec_seq (remove_duplicates fmt hits))"
    unfolding seqs by (rule distinct_first_rows)
  have "set (map rec_seq (remove_duplicates fmt hits)) = tseq ` set (map snd hits)"
    unfolding seqs using tseq_first_rows [of "map snd hits"] by simp
  then have cover: "rec_seq ` set (remove_duplicates fmt hits) = tseq ` snd ` set hits"
    by simp
  have recs: "remove_duplicates fmt hits =
       map (\<lambda>row. \<lparr> rec_id = theader row, rec_name = theader row, rec_seq = tseq row,
                       description =
                         ''pident='' @ fmt (pident row)
                         @ '', evalue='' @ fmt (Float (evalue row))
                         @ '' taxid='' @ fmt (taxid row)
                         @ '', taxname='' @ fmt (taxname row) @ '', '' \<rparr>)
         (first_rows (map snd hits))"
    unfolding remove_duplicates_first_rows
    by (rule map_cong [OF refl]) (simp add: seqrecord_of_def)
  from len dist cover recs ids names seqs show ?thesis by (intro conjI)
qed

theorem remove_duplicates_first_occurrence_witness:
  "remove_duplicates example_fmt
     [(0, example_hit ''seq1'' (Fin (1 / 10 ^ 20)) ''ATGC''),
      (1, example_hit ''seq2'' (Fin (1 / 10 ^ 5)) ''ATGC'')]
   = [\<lparr> rec_id = ''seq1'', rec_name = ''seq1'', rec_seq = ''ATGC'',
         description =
           ''pident=100.0, evalue=1e-20 taxid=562, taxname=Escherichia coli, '' \<rparr>]"
  using remove_duplicates_first_occurrence [of example_fmt
     "[(0, example_hit ''seq1'' (Fin (1 / 10 ^ 20)) ''ATGC''),
       (1, example_hit ''seq2'' (Fin (1 / 10 ^ 5)) ''ATGC'')]"]
  by (simp add: first_rows_def example_hit_def)

section \<open>The sorting routine sorts\<close>





lemma range_perm_middle:
  assumes "range_perm xs ys pl pr" and "pr < length xs"
  shows "mset (take (Suc pr - pl) (drop pl ys)) = mset (take (Suc pr - pl) (drop pl xs))"
proof -
  from assms have len: "length ys = length xs" and m: "mset ys = mset xs"
    and out: "\<And>k. k < length xs \<Longrightarrow> k < pl \<or> pr < k \<Longrightarrow> ys ! k = xs ! k"
    by (auto simp: range_perm_def)
  have a: "take pl ys = take pl xs"
    by (rule nth_equalityI) (use len out in auto)
  have b: "drop (Suc pr) ys = drop (Suc pr) xs"
    by (rule nth_equalityI) (use len out in auto)
  have split: "zs = take pl zs @ take (Suc pr - pl) (drop pl zs) @ drop (Suc pr) zs"
    if "pl \<le> Suc pr" for zs :: "'a list"
  proof -
    have "take (Suc pr - pl) (drop pl zs) @ drop (Suc pr) zs = drop pl zs"
      using that by (metis add_diff_inverse_nat append_take_drop_id drop_drop not_less add.commute le_add_diff_inverse)
    then show ?thesis by simp
  qed
  show ?thesis
  proof (cases "pl \<le> Suc pr")
    case True
    from split [OF True, of xs] split [OF True, of ys] m a b
    have "mset (take pl xs) + mset (take (Suc pr - pl) (drop pl ys)) + mset (drop (Suc pr) xs)
        = mset (take pl xs) + mset (take (Suc pr - pl) (drop pl xs)) + mset (drop (Suc pr) xs)"
      by (metis mset_append union_assoc)
    then show ?thesis by simp
  next
    case False
    then show ?thesis by simp
  qed
qed

lemma set_take_drop_range:
  assumes "pr < length xs"
  shows "set (take (Suc pr - pl) (drop pl xs)) = (\<lambda>k. xs ! k) ` {pl..pr}"
proof -
  have "set (take (Suc pr - pl) (drop pl xs)) = {xs ! k |k. pl \<le> k \<and> k \<le> pr}"
    using assms
    apply (auto simp: in_set_conv_nth)
     apply (rule_tac x = "pl + i" in exI)
     apply simp
    apply (rule_tac x = "k - pl" in exI)
    apply simp
    done
  then show ?thesis by auto
qed

lemma range_perm_image:
  assumes "range_perm xs ys pl pr" and "pr < length xs"
  shows "(\<lambda>k. ys ! k) ` {pl..pr} = (\<lambda>k. xs ! k) ` {pl..pr}"
proof -
  from assms have len: "length ys = length xs" by (simp add: range_perm_def)
  from range_perm_middle [OF assms]
  have "set (take (Suc pr - pl) (drop pl ys)) = set (take (Suc pr - pl) (drop pl xs))"
    by (rule mset_eq_setD)
  with assms(2) len show ?thesis by (simp add: set_take_drop_range)
qed


lemma range_perm_lower:
  assumes "range_perm xs ys a b" and "b < length xs"
    and "\<forall>k. a \<le> k \<and> k \<le> b \<longrightarrow> (c :: 'b::linorder) \<le> f (xs ! k)"
  shows "\<forall>k. a \<le> k \<and> k \<le> b \<longrightarrow> c \<le> f (ys ! k)"
proof (intro allI impI)
  fix k assume "a \<le> k \<and> k \<le> b"
  then have "ys ! k \<in> (\<lambda>k. ys ! k) ` {a..b}" by auto
  with range_perm_image [OF assms(1,2)] obtain k' where "a \<le> k'" "k' \<le> b" "ys ! k = xs ! k'"
    by auto
  with assms(3) show "c \<le> f (ys ! k)" by auto
qed



























section \<open>Properties of the translated-search table filter\<close>






lemma series_ge_error: "series_ge col t = Inl e \<Longrightarrow> e = TypeError"
proof (induction col)
  case Nil
  then show ?case by simp
next
  case (Cons a col)
  then show ?case by (cases a) (auto split: sum.splits)
qed














section \<open>Properties of paths\<close>


lemma split_on_nonempty: "split_on c p \<noteq> []"
  by (induction p) (auto split: list.splits)

lemma split_on_no_sep: "c \<notin> set p \<Longrightarrow> split_on c p = [p]"
  by (induction p) auto

lemma split_on_sep: "split_on c (a @ c # b) = split_on c a @ split_on c b"
proof (induction a)
  case Nil
  then show ?case by simp
next
  case (Cons x a)
  then show ?case
    using split_on_nonempty [of c a] by (cases "split_on c a") auto
qed


lemma split_on_append_tail:
  "c \<notin> set b \<Longrightarrow>
     split_on c (a @ b) = butlast (split_on c a) @ [last (split_on c a) @ b]"
proof (induction a)
  case Nil
  then show ?case by (simp add: split_on_no_sep)
next
  case (Cons x a)
  then show ?case
    using split_on_nonempty [of c a] by (cases "split_on c a") auto
qed

lemma split_on_last:
  "c \<notin> set b \<Longrightarrow> last (split_on c (a @ b)) = last (split_on c a) @ b"
  by (simp add: split_on_append_tail)

lemma split_on_last_sep: "last (split_on c (a @ [c])) = []"
  using split_on_sep [of c a "[]"] by simp

















section \<open>Properties of the pipeline driver\<close>


lemma parse_args_names:
  assumes "parse_args (declared_options which getenv) given = Inr args"
  shows "map fst args = [''parallel_binary_path'', ''tblastn_binary_path'',
     ''foldseek_binary_path'', ''input'', ''foldseek_db_path'', ''target_sequence_db_path'',
     ''evalue'', ''block'', ''jobs'', ''outfile_path'']"
proof -
  from assms have "args = map (\<lambda>opt. (opt_dest opt,
      case supplied given (opt_dest opt) of Some v \<Rightarrow> v | None \<Rightarrow> opt_default opt))
      (declared_options which getenv)"
    by (simp add: parse_args_def split: if_splits)
  then have "map fst args = map opt_dest (declared_options which getenv)"
    by (simp add: comp_def)
  then show ?thesis by (simp add: declared_options_def)
qed

lemma getattr_blastdbcmd:
  assumes "parse_args (declared_options which getenv) given = Inr args"
  shows "getattr args ''blastdbcmd_binary_path'' = Inl (AttributeError ''blastdbcmd_binary_path'')"
proof -
  have "''blastdbcmd_binary_path'' \<notin> set (map fst args)"
    unfolding parse_args_names [OF assms] by simp
  then have "map_of args ''blastdbcmd_binary_path'' = None"
    by (simp add: map_of_eq_None_iff)
  then show ?thesis by (simp add: getattr_def)
qed


lemma extract_final_records_fails:
  assumes "getattr args ''blastdbcmd_binary_path'' = Inl e"
  shows "extract_final_records env args df s = (Inl e, s)"
  using assms
  by (cases s) (simp add: extract_final_records_def bind_prog_def pure_step_def)

lemma run_stages_trace:
  assumes "run_stages env args input m8 (w, tr0) = (r, w', tr)"
    and "getattr args ''blastdbcmd_binary_path'' = Inl e"
  shows "\<exists>evs. tr = tr0 @ ReadM8 m8 # evs \<and> (\<forall>ev \<in> set evs. later_event_ok (path_stem input) m8 ev)
     \<and> prefix (map stage_of evs) [3, 4, 4, 5] \<and> (\<exists>e'. r = Inl e')"
  using assms
  by (auto simp: run_stages_def bind_prog_def pure_step_def world_step_def
      extract_final_records_def Let_def split: sum.splits prod.splits)





lemma determine_entry_trace:
  assumes "determine_entry env args input (w, tr0) = (r1, w1, tr1)"
  shows "tr1 = tr0 \<or> (\<exists>call. tr1 = tr0 @ [RunFoldseek call])"
  using assms
  by (auto simp: determine_entry_def bind_prog_def pure_step_def world_step_def Let_def
      split: sum.splits prod.splits if_splits)

lemma entry_then_stages:
  assumes run: "bind_prog (determine_entry env args input) (run_stages env args input) (w, tr0)
      = (r, w', tr)"
    and att: "getattr args ''blastdbcmd_binary_path'' = Inl e"
  shows "(\<exists>e'. r = Inl e') \<and> (\<exists>evs. tr = tr0 @ evs \<and> (\<forall>call. RunBlastdbcmd call \<notin> set evs))"
proof -
  obtain r1 w1 tr1 where d: "determine_entry env args input (w, tr0) = (r1, w1, tr1)"
    by (cases "determine_entry env args input (w, tr0)") auto
  from determine_entry_trace [OF d]
  obtain evs0 where tr1: "tr1 = tr0 @ evs0" and no0: "\<forall>call. RunBlastdbcmd call \<notin> set evs0"
    by auto
  show ?thesis
  proof (cases r1)
    case (Inl e1)
    with run d tr1 no0 show ?thesis by (auto simp: bind_prog_def)
  next
    case (Inr m8)
    with run d have "run_stages env args input m8 (w1, tr1) = (r, w', tr)"
      by (simp add: bind_prog_def)
    from run_stages_trace [OF this att] obtain evs e' where
      tr: "tr = tr1 @ ReadM8 m8 # evs" and ok: "\<forall>ev \<in> set evs. later_event_ok (path_stem input) m8 ev"
      and r: "r = Inl e'"
      by blast
    from ok have "\<forall>call. RunBlastdbcmd call \<notin> set evs" by auto
    with tr tr1 no0 r show ?thesis by auto
  qed
qed

lemma bind_pure:
  "bind_prog (pure_step f) g (w, tr) =
     (case f w of Inl e \<Rightarrow> (Inl e, w, tr) | Inr x \<Rightarrow> g x (w, tr))"
  by (simp add: bind_prog_def pure_step_def split: sum.splits)

lemma main_fails:
  assumes "main env given (w, tr0) = (r, w', tr)"
  shows "(\<exists>e. r = Inl e) \<and> (\<exists>evs. tr = tr0 @ evs \<and> (\<forall>call. RunBlastdbcmd call \<notin> set evs))"
proof (cases "parse_args (declared_options (env_which env w) (env_getenv env w)) given")
  case (Inl e)
  with assms show ?thesis by (auto simp: main_def bind_pure)
next
  case (Inr args)
  note att = getattr_blastdbcmd [OF Inr]
  have tr: "\<exists>evs. tr = tr0 @ evs \<and> (\<forall>call. RunBlastdbcmd call \<notin> set evs)"
    using assms Inr
    by (auto simp: main_def bind_pure split: sum.splits dest!: entry_then_stages [OF _ att])
  have "\<exists>e. r = Inl e"
  proof (cases r)
    case (Inl e)
    then show ?thesis by simp
  next
    case r: (Inr u)
    with assms Inr show ?thesis
      by (auto simp: main_def bind_pure split: sum.splits dest!: entry_then_stages [OF _ att])
  qed
  with tr show ?thesis by simp
qed




lemma example_parse:
  "parse_args (declared_options (env_which example_env ()) (env_getenv example_env ()))
     (example_given file) = Inr (example_args file)"
  by (simp add: parse_args_def declared_options_def example_env_def example_given_def
      example_args_def)


text \<open>
  C9. No declared option stores \<open>blastdbcmd_binary_path\<close>. For every namespace the
  parser returns, reading that attribute raises \<open>AttributeError\<close>, and so does the last
  stage, before it starts the extraction. Hence no run of \<open>main\<close> returns normally and
  none starts the extraction.
\<close>

theorem blastdbcmd_binary_path_undeclared:
  assumes "main env given (w, tr0) = (r, w', tr)"
  shows "''blastdbcmd_binary_path''
       \<notin> set (map opt_dest (declared_options (env_which env w) (env_getenv env w)))
     \<and> (\<forall>args df s.
          parse_args (declared_options (env_which env w) (env_getenv env w)) given = Inr args \<longrightarrow>
          getattr args ''blastdbcmd_binary_path''
            = Inl (AttributeError ''blastdbcmd_binary_path'')
          \<and> extract_final_records env args df s
            = (Inl (AttributeError ''blastdbcmd_binary_path''), s))
     \<and> (\<exists>e. r = Inl e)
     \<and> (\<exists>evs. tr = tr0 @ evs \<and> (\<forall>call. RunBlastdbcmd call \<notin> set evs))"
proof -
  have 1: "''blastdbcmd_binary_path''
       \<notin> set (map opt_dest (declared_options (env_which env w) (env_getenv env w)))"
    by (simp add: declared_options_def)
  have 2: "getattr args ''blastdbcmd_binary_path''
            = Inl (AttributeError ''blastdbcmd_binary_path'')
          \<and> extract_final_records env args df s
            = (Inl (AttributeError ''blastdbcmd_binary_path''), s)"
    if "parse_args (declared_options (env_which env w) (env_getenv env w)) given = Inr args"
    for args df s
    using getattr_blastdbcmd [OF that] extract_final_records_fails by blast
  from 1 2 main_fails [OF assms] show ?thesis by blast
qed

theorem blastdbcmd_binary_path_undeclared_witness:
  "main example_env (example_given ''sample.m8'') ((), [])
     = (Inl (AttributeError ''blastdbcmd_binary_path''), (),
        [ReadM8 ''sample.m8'', WriteFasta ''sample_nodup.fasta'' [example_record],
         RunTblastn example_tblastn_call, PrintDuration, ReadTsv ''sample_tblastn.tsv''])
   \<and> extract_final_records example_env (example_args ''sample.m8'')
        \<lparr>columns = [], rows = []\<rparr> ((), [])
     = (Inl (AttributeError ''blastdbcmd_binary_path''), (), [])"
proof -
  have run: "main example_env (example_given ''sample.m8'') ((), [])
     = (Inl (AttributeError ''blastdbcmd_binary_path''), (),
        [ReadM8 ''sample.m8'', WriteFasta ''sample_nodup.fasta'' [example_record],
         RunTblastn example_tblastn_call, PrintDuration, ReadTsv ''sample_tblastn.tsv''])"
    by code_simp
  from blastdbcmd_binary_path_undeclared [OF run] example_parse [of "''sample.m8''"] run
  show ?thesis by simp
qed

section \<open>Tables are left as they were\<close>


lemma lookup_new_obj [simp]:
  "lookup (st @ [ob]) (length st) = Some ob"
  by (simp add: lookup_def)

lemma filtering_m8file_st_eq:
  "filtering_m8file_st read_csv file t st =
     (case filtering_m8file read_csv file t of
        Inl e \<Rightarrow> (Inl e, st)
      | Inr out \<Rightarrow>
          (case read_csv file of
             Inl e \<Rightarrow> (Inl e, st)
           | Inr rs \<Rightarrow> (Inr (Suc (length st)), st @ [M8Table (range_index rs), M8Table out])))"
  by (simp add: filtering_m8file_st_def filtering_m8file_def st_filter_evalue_def new_obj_def
      split: sum.splits)

lemma filtering_by_pident_st_cases:
  assumes "filtering_by_pident_st argsort read_csv infile t c st = (r, st')"
  shows "(\<exists>e. read_csv infile = Inl e \<and> r = Inl e \<and> st' = st
            \<and> filtering_by_pident argsort read_csv infile t c = Inl e)
     \<or> (\<exists>header rs e. read_csv infile = Inr (header, rs) \<and> r = Inl e
            \<and> filtering_by_pident argsort read_csv infile t c = Inl e
            \<and> (st' = st @ [TsvTable \<lparr>columns = header, rows = range_index rs\<rparr>]
                \<or> (\<exists>f. st' = st @ [TsvTable \<lparr>columns = header, rows = range_index rs\<rparr>,
                                     TsvTable f])))
     \<or> (\<exists>header rs f out. read_csv infile = Inr (header, rs)
            \<and> r = Inr (Some (Suc (Suc (length st))))
            \<and> filtering_by_pident argsort read_csv infile t c = Inr out
            \<and> st' = st @ [TsvTable \<lparr>columns = header, rows = range_index rs\<rparr>,
                            TsvTable f, TsvTable out])"
  using assms
  by (auto simp: filtering_by_pident_st_def filtering_by_pident_def st_filter_pident_def
      st_sort_values_def new_obj_def lookup_def nth_append Let_def
      split: sum.splits prod.splits)


lemma remove_duplicates_st_cases:
  assumes "remove_duplicates_st fmt hits st = (r, st')"
  shows "st' = st
     \<and> (\<forall>records. r = Inr records \<longrightarrow>
           (\<exists>t. lookup st hits = Some (M8Table t) \<and> records = remove_duplicates fmt t))"
  using assms
  by (auto simp: remove_duplicates_st_def split: option.splits obj.splits)



lemma filtering_m8file_st_frame:
  assumes a: "filtering_m8file_st read_csv file t st = (r1, st1)"
  shows "take (length st) st1 = st"
    and "\<forall>rs. read_csv file = Inr rs \<longrightarrow>
           lookup st1 (length st) = Some (M8Table (range_index rs))"
    and "\<forall>a. r1 = Inr a \<longrightarrow> length st < a
           \<and> (\<exists>out. filtering_m8file read_csv file t = Inr out
                 \<and> lookup st1 a = Some (M8Table out))"
proof -
  from a show "take (length st) st1 = st"
    by (auto simp: filtering_m8file_st_eq split: sum.splits)
  from a show "\<forall>rs. read_csv file = Inr rs \<longrightarrow>
           lookup st1 (length st) = Some (M8Table (range_index rs))"
    by (auto simp: filtering_m8file_st_eq filtering_m8file_def lookup_def split: sum.splits)
  from a show "\<forall>a. r1 = Inr a \<longrightarrow> length st < a
           \<and> (\<exists>out. filtering_m8file read_csv file t = Inr out
                 \<and> lookup st1 a = Some (M8Table out))"
    by (auto simp: filtering_m8file_st_eq lookup_def nth_append split: sum.splits)
qed

lemma filtering_by_pident_st_frame:
  assumes "filtering_by_pident_st argsort read_tsv infile p c st = (r3, st3)"
  shows "take (length st) st3 = st"
    and "\<forall>header rs. read_tsv infile = Inr (header, rs) \<longrightarrow>
           lookup st3 (length st) = Some (TsvTable \<lparr>columns = header, rows = range_index rs\<rparr>)"
    and "\<forall>a. r3 = Inr a \<longrightarrow>
           (\<exists>b out. a = Some b \<and> length st < b
              \<and> filtering_by_pident argsort read_tsv infile p c = Inr out
              \<and> lookup st3 b = Some (TsvTable out))"
proof -
  note c = filtering_by_pident_st_cases [OF assms]
  from c show "take (length st) st3 = st" by auto
  from c show "\<forall>header rs. read_tsv infile = Inr (header, rs) \<longrightarrow>
           lookup st3 (length st) = Some (TsvTable \<lparr>columns = header, rows = range_index rs\<rparr>)"
    by (auto simp: lookup_def nth_append)
  show "\<forall>a. r3 = Inr a \<longrightarrow>
           (\<exists>b out. a = Some b \<and> length st < b
              \<and> filtering_by_pident argsort read_tsv infile p c = Inr out
              \<and> lookup st3 b = Some (TsvTable out))"
  proof (intro allI impI)
    fix a
    assume r: "r3 = Inr a"
    from c r
    obtain header rs f out where "a = Some (Suc (Suc (length st)))"
      and out: "filtering_by_pident argsort read_tsv infile p c = Inr out"
      and st3: "st3 = st @ [TsvTable \<lparr>columns = header, rows = range_index rs\<rparr>,
                              TsvTable f, TsvTable out]"
      by (elim disjE exE conjE) simp_all
    moreover have "lookup st3 (Suc (Suc (length st))) = Some (TsvTable out)"
      unfolding st3 by (simp add: lookup_def nth_append)
    ultimately show "\<exists>b out. a = Some b \<and> length st < b
                \<and> filtering_by_pident argsort read_tsv infile p c = Inr out
                \<and> lookup st3 b = Some (TsvTable out)"
      by (intro exI [of _ "Suc (Suc (length st))"] exI [of _ out]) simp
  qed
qed

text \<open>
  C10. Each of the three functions leaves every table that existed before the call as
  it was. For the two that read a file, the table read is at return still as it was
  read, and the table returned is another, new object holding the result. For
  \<open>remove_duplicates\<close> the store after the call is the store before it, and the records
  returned are those of the table at \<open>hits\<close>.
\<close>

theorem table_inputs_unchanged:
  "(filtering_m8file_st read_csv file t st = (r1, st1) \<longrightarrow>
       take (length st) st1 = st
     \<and> (\<forall>rs. read_csv file = Inr rs \<longrightarrow>
           lookup st1 (length st) = Some (M8Table (range_index rs)))
     \<and> (\<forall>a. r1 = Inr a \<longrightarrow> length st < a
           \<and> (\<exists>out. filtering_m8file read_csv file t = Inr out
                 \<and> lookup st1 a = Some (M8Table out))))
   \<and> (remove_duplicates_st fmt hits st = (r2, st2) \<longrightarrow>
       st2 = st
     \<and> (\<forall>records. r2 = Inr records \<longrightarrow>
           (\<exists>tbl. lookup st hits = Some (M8Table tbl) \<and> records = remove_duplicates fmt tbl)))
   \<and> (filtering_by_pident_st argsort read_tsv infile p c st = (r3, st3) \<longrightarrow>
       take (length st) st3 = st
     \<and> (\<forall>header rs. read_tsv infile = Inr (header, rs) \<longrightarrow>
           lookup st3 (length st) = Some (TsvTable \<lparr>columns = header, rows = range_index rs\<rparr>))
     \<and> (\<forall>a. r3 = Inr a \<longrightarrow>
           (\<exists>b out. a = Some b \<and> length st < b
              \<and> filtering_by_pident argsort read_tsv infile p c = Inr out
              \<and> lookup st3 b = Some (TsvTable out))))"
proof (intro conjI impI)
  assume "filtering_m8file_st read_csv file t st = (r1, st1)"
  from filtering_m8file_st_frame [OF this]
  show "take (length st) st1 = st"
    and "\<forall>rs. read_csv file = Inr rs \<longrightarrow>
           lookup st1 (length st) = Some (M8Table (range_index rs))"
    and "\<forall>a. r1 = Inr a \<longrightarrow> length st < a
           \<and> (\<exists>out. filtering_m8file read_csv file t = Inr out
                 \<and> lookup st1 a = Some (M8Table out))"
    by this+
next
  assume "remove_duplicates_st fmt hits st = (r2, st2)"
  from remove_duplicates_st_cases [OF this]
  show "st2 = st" and "\<forall>records. r2 = Inr records \<longrightarrow>
           (\<exists>tbl. lookup st hits = Some (M8Table tbl) \<and> records = remove_duplicates fmt tbl)"
    by (rule conjunct1, rule conjunct2)
next
  assume "filtering_by_pident_st argsort read_tsv infile p c st = (r3, st3)"
  from filtering_by_pident_st_frame [OF this]
  show "take (length st) st3 = st"
    and "\<forall>header rs. read_tsv infile = Inr (header, rs) \<longrightarrow>
           lookup st3 (length st) = Some (TsvTable \<lparr>columns = header, rows = range_index rs\<rparr>)"
    and "\<forall>a. r3 = Inr a \<longrightarrow>
           (\<exists>b out. a = Some b \<and> length st < b
              \<and> filtering_by_pident argsort read_tsv infile p c = Inr out
              \<and> lookup st3 b = Some (TsvTable out))"
    by this+
qed

theorem table_inputs_unchanged_witness:
  "filtering_m8file_st example_m8_files ''sample.m8'' default_eval_threshold example_store
     = (Inr 2,
        example_store @
        [M8Table [(0, example_hit ''seq1'' (Fin (1 / 10 ^ 20)) ''ATGC''),
                  (1, example_hit ''seq2'' (Fin (1 / 10 ^ 5)) ''ATGC'')],
         M8Table [(0, example_hit ''seq1'' (Fin (1 / 10 ^ 20)) ''ATGC'')]])
   \<and> remove_duplicates_st example_fmt 0 example_store = (Inr [example_record], example_store)
   \<and> lookup example_store 0
     = Some (M8Table [(0, example_hit ''seq1'' (Fin (1 / 10 ^ 20)) ''ATGC''),
                      (1, example_hit ''seq2'' (Fin (1 / 10 ^ 5)) ''ATGC'')])"
proof -
  have 1: "filtering_m8file_st example_m8_files ''sample.m8'' default_eval_threshold example_store
     = (Inr 2,
        example_store @
        [M8Table [(0, example_hit ''seq1'' (Fin (1 / 10 ^ 20)) ''ATGC''),
                  (1, example_hit ''seq2'' (Fin (1 / 10 ^ 5)) ''ATGC'')],
         M8Table [(0, example_hit ''seq1'' (Fin (1 / 10 ^ 20)) ''ATGC'')]])"
    by code_simp
  have 2: "remove_duplicates_st example_fmt 0 example_store = (Inr [example_record], example_store)"
    by code_simp
  have 3: "lookup example_store 0
     = Some (M8Table [(0, example_hit ''seq1'' (Fin (1 / 10 ^ 20)) ''ATGC''),
                      (1, example_hit ''seq2'' (Fin (1 / 10 ^ 5)) ''ATGC'')])"
    by code_simp
  from table_inputs_unchanged [of example_m8_files "''sample.m8''" default_eval_threshold
      example_store "Inr 2" _ example_fmt 0 "Inr [example_record]" example_store] 1 2 3
  show ?thesis by simp
qed

end
